theory Spec2Isabelle
  imports Complex_Main "HOL-Library.AList" "HOL-Library.Sublist"
begin

section \<open>Python values the bot computes with\<close>

text \<open>
  The bot is one Python module, \<^verbatim>\<open>main.py\<close>. Its functions are embedded here as HOL
  functions over explicit state.

  A Python \<open>str\<close> that the code takes apart (message text, captions, user names) is the
  list of its Unicode code points, \<^typ>\<open>nat list\<close>; \<open>lit\<close> writes an ASCII literal of the
  source as such a list. A \<open>str\<close> that is only stored, compared as a whole or used as a
  dictionary key (role names, field names, keys, reasons, fingerprints) is a HOL
  \<^typ>\<open>string\<close>.
\<close>

type_synonym pystr = "nat list"

definition lit :: "string \<Rightarrow> pystr" where
  "lit s = map of_char s"

text \<open>
  \<open>str.isspace\<close> of one character, which is also the whitespace that \<open>str.strip()\<close> removes
  and that the class \<open>\S\<close> of a \<open>str\<close> pattern excludes: the code points of general category
  \<open>Zs\<close> or bidirectional class \<open>WS\<close>, \<open>B\<close> or \<open>S\<close>.
\<close>

definition py_isspace :: "nat \<Rightarrow> bool" where
  "py_isspace c =
     (c \<in> set [0x09, 0x0A, 0x0B, 0x0C, 0x0D, 0x1C, 0x1D, 0x1E, 0x1F, 0x20, 0x85, 0xA0, 0x1680]
      \<or> (0x2000 \<le> c \<and> c \<le> 0x200A)
      \<or> c \<in> set [0x2028, 0x2029, 0x202F, 0x205F, 0x3000])"

text \<open>
  \<open>str.lower()\<close>. On a string of ASCII characters it maps \<open>A\<close>..\<open>Z\<close> to \<open>a\<close>..\<open>z\<close> and leaves
  every other character alone. On a string with a character outside ASCII it follows the
  case tables of the Unicode database, which are not part of the module: there the result
  is what the parameter \<open>lw\<close> gives.
\<close>

definition ascii_lower :: "nat \<Rightarrow> nat" where
  "ascii_lower c = (if 65 \<le> c \<and> c \<le> 90 then c + 32 else c)"

definition py_lower :: "(pystr \<Rightarrow> pystr) \<Rightarrow> pystr \<Rightarrow> pystr" where
  "py_lower lw s = (if list_all (\<lambda>c. c < 128) s then map ascii_lower s else lw s)"

definition py_strip :: "pystr \<Rightarrow> pystr" where
  "py_strip s = rev (dropWhile py_isspace (rev (dropWhile py_isspace s)))"

text \<open>\<open>m in t\<close> on strings: \<open>m\<close> occurs in \<open>t\<close> as a contiguous substring.\<close>

fun py_in :: "'a list \<Rightarrow> 'a list \<Rightarrow> bool" where
  "py_in m [] = (m = [])"
| "py_in m (c # cs) = (prefix m (c # cs) \<or> py_in m cs)"

text \<open>\<open>str(int(n))\<close>: the decimal digits of an integer, with a minus sign when negative.\<close>

definition digit_char :: "nat \<Rightarrow> char" where
  "digit_char d = ''0123456789'' ! (d mod 10)"

function nat_digits :: "nat \<Rightarrow> string" where
  "nat_digits n = (if n < 10 then [digit_char n] else nat_digits (n div 10) @ [digit_char (n mod 10)])"
  by pat_completeness auto
termination
  by (relation "measure id") auto

declare nat_digits.simps [simp del]

definition py_str_int :: "int \<Rightarrow> string" where
  "py_str_int i = (if i < 0 then CHR ''-'' # nat_digits (nat (- i)) else nat_digits (nat i))"

text \<open>\<open>int(x)\<close> of a \<open>float\<close>: truncation toward zero.\<close>

definition py_trunc :: "real \<Rightarrow> int" where
  "py_trunc x = (if x \<ge> 0 then \<lfloor>x\<rfloor> else \<lceil>x\<rceil>)"

text \<open>
  Exceptions are values; a call returns its result together with the state it left.
  \<open>TelegramError\<close> stands for whatever a call to the platform raises.
\<close>

datatype py_error = ValueError | TypeError | UnicodeError | TelegramError

datatype 'a result = Raised py_error | Returned 'a

text \<open>
  \<^verbatim>\<open>data.json\<close> is loaded as it is, so the code guards its reads with \<open>isinstance\<close>.
  \<open>Is x\<close> is a JSON value of the shape the guard asks for, \<open>Other\<close> any value that fails
  the guard.
\<close>

datatype 'a dyn = Is 'a | Other

type_synonym ('k, 'v) pydict = "('k \<times> 'v) list"

text \<open>
  A \<open>dict\<close> is an association list in insertion order with pairwise distinct keys:
  \<open>d.get(k)\<close> is \<^const>\<open>map_of\<close>, \<open>d[k] = v\<close> is \<^const>\<open>AList.update\<close> (in place for a key
  already there, appended otherwise), \<open>d.pop(k, None)\<close> is \<^const>\<open>AList.delete\<close> and
  \<open>len(d)\<close> is \<^const>\<open>length\<close>.
\<close>

definition py_has_key :: "'k \<Rightarrow> ('k, 'v) pydict \<Rightarrow> bool" where
  "py_has_key k d = (map_of d k \<noteq> None)"

text \<open>
  A value as \<^verbatim>\<open>data.json\<close> or a caller may supply it where the code expects a number, a
  flag or a name: \<open>None\<close>, a \<open>bool\<close>, an \<open>int\<close>, a \<open>float\<close>, a \<open>str\<close>, or a list or dictionary
  (\<open>VOther\<close>, with the flag saying whether it is non-empty, which is its truth value).
\<close>

datatype val = VNone | VBool bool | VInt int | VFloat real | VStr string | VOther bool

text \<open>Truth value (\<open>if x\<close>, \<open>not x\<close>, \<open>x and y\<close>).\<close>

fun py_truth :: "val \<Rightarrow> bool" where
  "py_truth VNone = False"
| "py_truth (VBool b) = b"
| "py_truth (VInt i) = (i \<noteq> 0)"
| "py_truth (VFloat x) = (x \<noteq> 0)"
| "py_truth (VStr x) = (x \<noteq> [])"
| "py_truth (VOther b) = b"

text \<open>
  The number a value stands for in an ordering comparison with an \<open>int\<close> or a \<open>float\<close>
  (\<open>bool\<close> is a subclass of \<open>int\<close>; such comparisons are exact). For any other value the
  comparison raises \<open>TypeError\<close>: that is \<open>None\<close> here.
\<close>

fun py_num :: "val \<Rightarrow> real option" where
  "py_num (VBool b) = Some (if b then 1 else 0)"
| "py_num (VInt i) = Some (of_int i)"
| "py_num (VFloat x) = Some x"
| "py_num v = None"

text \<open>
  \<open>int(v)\<close>. For a \<open>str\<close> it parses the text (\<open>ValueError\<close> when that is no integer
  literal); the parser is the parameter \<open>parse\<close>.
\<close>

fun py_int :: "(string \<Rightarrow> int option) \<Rightarrow> val \<Rightarrow> int result" where
  "py_int parse (VBool b) = Returned (if b then 1 else 0)"
| "py_int parse (VInt i) = Returned i"
| "py_int parse (VFloat x) = Returned (py_trunc x)"
| "py_int parse (VStr x) = (case parse x of Some i \<Rightarrow> Returned i | None \<Rightarrow> Raised ValueError)"
| "py_int parse v = Raised TypeError"

section \<open>Roles\<close>

definition ROLE_SEEKER :: string where "ROLE_SEEKER = ''seeker''"
definition ROLE_MOD :: string where "ROLE_MOD = ''moderator''"
definition ROLE_ADMIN :: string where "ROLE_ADMIN = ''admin''"
definition ROLE_HEAD :: string where "ROLE_HEAD = ''head_admin''"
definition ROLE_CREATOR :: string where "ROLE_CREATOR = ''creator''"

definition ROLE_ORDER :: "string list" where
  "ROLE_ORDER = [ROLE_SEEKER, ROLE_MOD, ROLE_ADMIN, ROLE_HEAD, ROLE_CREATOR]"

text \<open>\<open>ROLE_RANK = {r: i for i, r in enumerate(ROLE_ORDER)}\<close>\<close>

definition ROLE_RANK :: "string \<rightharpoonup> int" where
  "ROLE_RANK = map_of (zip ROLE_ORDER (map int [0 ..< length ROLE_ORDER]))"

text \<open>\<open>ROLE_RANK.get(role, -1)\<close>, for a role that may be \<open>None\<close>.\<close>

definition rank_get :: "string option \<Rightarrow> int" where
  "rank_get role =
     (case role of
        None \<Rightarrow> - 1
      | Some r \<Rightarrow> (case ROLE_RANK r of Some i \<Rightarrow> i | None \<Rightarrow> - 1))"

text \<open>
  \<open>role_at_least\<close>: \<open>ROLE_RANK[required]\<close> raises \<open>KeyError\<close> for a name that is no role;
  that is the value \<open>None\<close> here. Every caller passes one of the five constants.
\<close>

definition role_at_least :: "string option \<Rightarrow> string \<Rightarrow> bool option" where
  "role_at_least role required =
     (case role of
        None \<Rightarrow> Some False
      | Some r \<Rightarrow> (case ROLE_RANK required of
                    None \<Rightarrow> None
                  | Some q \<Rightarrow> Some (rank_get role \<ge> q)))"


text \<open>Python truthiness of an \<open>Optional[str]\<close>: neither \<open>None\<close> nor the empty string.\<close>

definition truthy :: "'a list option \<Rightarrow> bool" where
  "truthy x = (case x of None \<Rightarrow> False | Some s \<Rightarrow> s \<noteq> [])"

section \<open>Settings\<close>

text \<open>
  The dataclass annotates its fields but does not check them: \<open>ChatSettings(**d)\<close> holds
  whatever values \<open>d\<close> holds. So the fields are values of any type here.
\<close>

record ChatSettings =
  enabled :: val
  flood_limit :: val
  flood_window_sec :: val
  repeat_limit :: val
  block_links :: val
  sticker_mode :: val
  gif_mode :: val
  sticker_limit :: val
  gif_limit :: val
  media_window_sec :: val
  action :: val
  mute_seconds :: val
  cleanup_enabled :: val
  cleanup_days :: val
  cleanup_mode :: val

definition DEFAULT :: ChatSettings where
  "DEFAULT = \<lparr> enabled = VBool True, flood_limit = VInt 6, flood_window_sec = VInt 10,
       repeat_limit = VInt 3, block_links = VBool True, sticker_mode = VStr ''limit'',
       gif_mode = VStr ''limit'', sticker_limit = VInt 4, gif_limit = VInt 3,
       media_window_sec = VInt 12, action = VStr ''mute'', mute_seconds = VInt 14400,
       cleanup_enabled = VBool False, cleanup_days = VInt 14, cleanup_mode = VStr ''kick'' \<rparr>"

text \<open>\<open>dataclasses.asdict\<close>: the fields in declaration order.\<close>

definition asdict :: "ChatSettings \<Rightarrow> (string, val) pydict" where
  "asdict s =
     [(''enabled'', enabled s), (''flood_limit'', flood_limit s),
      (''flood_window_sec'', flood_window_sec s), (''repeat_limit'', repeat_limit s),
      (''block_links'', block_links s), (''sticker_mode'', sticker_mode s),
      (''gif_mode'', gif_mode s), (''sticker_limit'', sticker_limit s),
      (''gif_limit'', gif_limit s), (''media_window_sec'', media_window_sec s),
      (''action'', action s), (''mute_seconds'', mute_seconds s),
      (''cleanup_enabled'', cleanup_enabled s), (''cleanup_days'', cleanup_days s),
      (''cleanup_mode'', cleanup_mode s)]"

text \<open>
  \<open>ChatSettings(**d)\<close> for a dictionary \<open>d\<close> with exactly the fifteen field names as keys,
  which is how \<open>get_settings_local\<close> calls it (the call cannot raise then, so the \<open>except\<close>
  branch there is never taken).
\<close>

definition field_of :: "(string, val) pydict \<Rightarrow> string \<Rightarrow> val" where
  "field_of d k = (case map_of d k of Some v \<Rightarrow> v | None \<Rightarrow> VNone)"

definition from_dict :: "(string, val) pydict \<Rightarrow> ChatSettings" where
  "from_dict d =
     \<lparr> enabled = field_of d ''enabled'', flood_limit = field_of d ''flood_limit'',
       flood_window_sec = field_of d ''flood_window_sec'',
       repeat_limit = field_of d ''repeat_limit'', block_links = field_of d ''block_links'',
       sticker_mode = field_of d ''sticker_mode'', gif_mode = field_of d ''gif_mode'',
       sticker_limit = field_of d ''sticker_limit'', gif_limit = field_of d ''gif_limit'',
       media_window_sec = field_of d ''media_window_sec'', action = field_of d ''action'',
       mute_seconds = field_of d ''mute_seconds'',
       cleanup_enabled = field_of d ''cleanup_enabled'',
       cleanup_days = field_of d ''cleanup_days'', cleanup_mode = field_of d ''cleanup_mode'' \<rparr>"

section \<open>The file store\<close>

text \<open>
  A warning entry. \<open>count\<close> is the entry's \<open>"count"\<close>, which \<open>add_warn_local\<close> reads back
  through \<open>int(entry.get("count", 0))\<close>: \<open>None\<close> when the key is missing, else the value of
  whatever type. The other three keys are only ever overwritten.
\<close>

record warn_entry =
  count :: "val option"
  last_ts :: int
  last_reason :: string
  last_by :: int

record activity_info =
  seen_ts :: "int dyn"
  username :: "pystr option"

text \<open>
  \<open>DATA\<close>: one dictionary per namespace, keyed by \<open>_chat_key\<close>, then by \<open>_user_key\<close> where
  it applies. \<open>load_data\<close> only ever installs dictionaries at the top level. The \<open>meta\<close>
  namespace (log destination, rules text) plays no part in what follows and is left out.
  In an activity record \<open>seen_ts\<close> is the entry \<open>"last_ts"\<close>. An entry of a chat's whitelist
  is given by its \<open>str()\<close>, which is all \<open>is_whitelisted\<close> reads of it.
\<close>

record DATA =
  settings :: "(string, (string, val) pydict dyn) pydict"
  roles :: "(string, (string, string dyn) pydict dyn) pydict"
  warns :: "(string, (string, warn_entry dyn) pydict dyn) pydict"
  activity :: "(string, (string, activity_info dyn) pydict dyn) pydict"
  whitelist :: "(string, string list dyn) pydict"

definition chat_key :: "int \<Rightarrow> string" where
  "chat_key chat_id = py_str_int chat_id"

definition user_key :: "int \<Rightarrow> string" where
  "user_key user_id = py_str_int user_id"

definition get_settings_local :: "DATA \<Rightarrow> int \<Rightarrow> ChatSettings" where
  "get_settings_local D chat_id =
     (case map_of (settings D) (chat_key chat_id) of
        Some (Is raw) \<Rightarrow>
          from_dict (fold (\<lambda>(k, v) d. if py_has_key k d then AList.update k v d else d)
                       raw (asdict DEFAULT))
      | _ \<Rightarrow> from_dict (asdict DEFAULT))"

text \<open>The result of a call to the platform: it returns, it is refused with
  \<open>TelegramBadRequest\<close>, or it raises another exception (the network, a timeout, flood
  control, the bot removed from the chat).\<close>

datatype outcome = Done | Refused | Broke

datatype audit =
    AutoModLog int int string val "int option" pystr
  | WarnLog int int int int string
  | AutoMuteLog int int int int string

datatype answer =
    NoRights
  | Usage
  | CannotModerate
  | Warned int int string
  | AutoPunished int int string

text \<open>
  What a handler run reads from outside.
  \<^item> \<open>time\<close>: the clock, \<open>time.time()\<close>, a binary64 float and so a real number;
    \<open>int(time.time())\<close> truncates it.
  \<^item> \<open>fsub\<close>: the subtraction of two floats, which rounds the exact difference to binary64.
  \<^item> \<open>str_lower\<close>: \<open>str.lower()\<close> on text with characters outside ASCII.
  \<^item> \<open>int_of_str\<close>: \<open>int(s)\<close> of a \<open>str\<close>, \<open>None\<close> when it raises \<open>ValueError\<close>.
  \<^item> \<open>sha16\<close>: the 16 hex digits \<open>hashlib.sha256(s.encode("utf-8")).hexdigest()[:16]\<close>.
  \<^item> \<open>member_status\<close>: the platform's answer to \<open>get_chat_member\<close>, the member's status, or
    \<open>None\<close> when the call is refused with \<open>TelegramBadRequest\<close>; \<open>lookup_raises\<close>: the call
    raises another exception, which no caller catches. The lookups a handler makes before it
    decides see one snapshot of these two.
  \<^item> \<open>mention_raises\<close>: the later lookup inside \<open>display_user_mention\<close> raises an exception
    other than \<open>TelegramBadRequest\<close>.
  \<^item> \<open>delete_out\<close>, \<open>restrict_out\<close>, \<open>answer_out\<close>, \<open>log_out\<close>: how \<open>message.delete\<close>,
    \<open>restrict_chat_member\<close>, \<open>message.answer\<close> with a given text and the \<open>send_message\<close> of
    \<open>log_action\<close> with a given text end.
  \<^item> \<open>io_ok\<close>: whether \<^verbatim>\<open>data.json\<close> can be written.
\<close>

record env =
  time :: real
  fsub :: "real \<Rightarrow> real \<Rightarrow> real"
  str_lower :: "pystr \<Rightarrow> pystr"
  int_of_str :: "string \<Rightarrow> int option"
  sha16 :: "pystr \<Rightarrow> string"
  member_status :: "int \<Rightarrow> int \<Rightarrow> string option"
  lookup_raises :: "int \<Rightarrow> int \<Rightarrow> bool"
  mention_raises :: "int \<Rightarrow> int \<Rightarrow> bool"
  delete_out :: outcome
  restrict_out :: outcome
  answer_out :: "answer \<Rightarrow> outcome"
  log_out :: "audit \<Rightarrow> outcome"
  io_ok :: bool

text \<open>
  The module's globals: \<open>DATA\<close> and the in-memory spam state (each a \<open>defaultdict\<close> keyed
  by chat id and then user id, here a total function of the pair that starts at the
  default), the content of \<^verbatim>\<open>data.json\<close> as last written, and whether a debounced
  activity save is pending.
\<close>

record state =
  DATA :: DATA
  disk :: DATA
  save_pending :: bool
  msg_times :: "int \<times> int \<Rightarrow> real list"
  last_hash :: "int \<times> int \<Rightarrow> string \<times> int"
  sticker_times :: "int \<times> int \<Rightarrow> real list"
  gif_times :: "int \<times> int \<Rightarrow> real list"
  album_seen :: "int \<times> int \<Rightarrow> (string, real) pydict"

text \<open>\<open>save_data\<close> writes a temporary file and renames it; any exception is swallowed.\<close>

definition save_data :: "env \<Rightarrow> state \<Rightarrow> state" where
  "save_data e st = (if io_ok e then st\<lparr>disk := DATA st\<rparr> else st)"

definition set_setting_local :: "env \<Rightarrow> int \<Rightarrow> string \<Rightarrow> val \<Rightarrow> state \<Rightarrow> unit result \<times> state" where
  "set_setting_local e chat_id field v st =
     (if field \<notin> set (map fst (asdict DEFAULT)) then (Raised ValueError, st)
      else
        let ck = chat_key chat_id;
            cur = (case map_of (settings (DATA st)) ck of
                     Some (Is d) \<Rightarrow> d
                   | _ \<Rightarrow> asdict DEFAULT);
            D' = (DATA st)\<lparr>settings :=
                    AList.update ck (Is (AList.update field v cur)) (settings (DATA st))\<rparr>
        in (Returned (), save_data e (st\<lparr>DATA := D'\<rparr>)))"

definition get_role_local :: "DATA \<Rightarrow> int \<Rightarrow> int \<Rightarrow> string option" where
  "get_role_local D chat_id user_id =
     (case map_of (roles D) (chat_key chat_id) of
        Some (Is rs) \<Rightarrow>
          (case map_of rs (user_key user_id) of Some (Is r) \<Rightarrow> Some r | _ \<Rightarrow> None)
      | _ \<Rightarrow> None)"

text \<open>\<open>str(int(user_id)) in set(map(str, wl))\<close>\<close>

definition is_whitelisted :: "DATA \<Rightarrow> int \<Rightarrow> int \<Rightarrow> bool" where
  "is_whitelisted D chat_id user_id =
     (case map_of (whitelist D) (chat_key chat_id) of
        Some (Is wl) \<Rightarrow> py_str_int user_id \<in> set wl
      | _ \<Rightarrow> False)"

definition upsert_activity_local ::
  "(pystr \<Rightarrow> pystr) \<Rightarrow> int \<Rightarrow> int \<Rightarrow> int \<Rightarrow> pystr option \<Rightarrow> state \<Rightarrow> state" where
  "upsert_activity_local lw chat_id user_id ts uname_opt st =
     (let ck = chat_key chat_id;
          users = (case map_of (activity (DATA st)) ck of Some (Is us) \<Rightarrow> us | _ \<Rightarrow> []);
          ukey = user_key user_id;
          u0 = py_strip (case uname_opt of Some n \<Rightarrow> n | None \<Rightarrow> []);
          u1 = (if prefix (lit ''@'') u0 then drop 1 u0 else u0);
          uname = (if u1 \<noteq> [] then Some (py_lower lw u1) else None);
          info = \<lparr> seen_ts = Is ts, username = uname \<rparr>;
          D' = (DATA st)\<lparr>activity :=
                  AList.update ck (Is (AList.update ukey (Is info) users)) (activity (DATA st))\<rparr>
      in st\<lparr>DATA := D', save_pending := True\<rparr>)"


section \<open>Periodic activity cleanup\<close>

definition ACTIVITY_KEEP_DAYS :: int where "ACTIVITY_KEEP_DAYS = 180"
definition ACTIVITY_MAX_PER_CHAT :: nat where "ACTIVITY_MAX_PER_CHAT = 20000"

text \<open>The \<open>(uid_s, ts)\<close> pairs of the records whose \<open>last_ts\<close> is an \<open>int\<close>.\<close>

definition activity_items :: "(string, activity_info dyn) pydict \<Rightarrow> (string \<times> int) list" where
  "activity_items users =
     List.map_filter
       (\<lambda>(uid_s, info). case info of
            Is i \<Rightarrow> (case seen_ts i of Is ts \<Rightarrow> Some (uid_s, ts) | Other \<Rightarrow> None)
          | Other \<Rightarrow> None)
       users"

text \<open>
  \<open>items.sort(key=lambda x: x[1], reverse=True)\<close>: newest first; the sort is stable, so
  records with equal timestamps stay in dictionary order.
\<close>

definition sort_newest_first :: "(string \<times> int) list \<Rightarrow> (string \<times> int) list" where
  "sort_newest_first items = sort_key (\<lambda>x. - snd x) items"

definition keep_keys :: "int \<Rightarrow> nat \<Rightarrow> (string, activity_info dyn) pydict \<Rightarrow> string list" where
  "keep_keys cutoff maxn users =
     (let items = sort_newest_first (activity_items users)
      in map fst (filter (\<lambda>(uid_s, ts). ts \<ge> cutoff) items) @ map fst (take maxn items))"

text \<open>The body of the loop over chats, for one chat's \<open>users\<close> dictionary.\<close>

definition prune_users ::
  "int \<Rightarrow> nat \<Rightarrow> (string, activity_info dyn) pydict \<Rightarrow> (string, activity_info dyn) pydict" where
  "prune_users cutoff maxn users =
     (let keep = keep_keys cutoff maxn users
      in if length (remdups keep) \<noteq> length users
         then filter (\<lambda>(uid_s, info). uid_s \<in> set keep) users
         else users)"

definition prune_activity_once :: "env \<Rightarrow> state \<Rightarrow> state" where
  "prune_activity_once e st =
     (let cutoff = py_trunc (time e) - ACTIVITY_KEEP_DAYS * 86400;
          pruned = map (\<lambda>(ck, users). case users of
                           Is us \<Rightarrow> (ck, Is (prune_users cutoff ACTIVITY_MAX_PER_CHAT us))
                         | Other \<Rightarrow> (ck, Other))
                     (activity (DATA st));
          changed = list_ex (\<lambda>(ck, users). case users of
                           Is us \<Rightarrow> length (prune_users cutoff ACTIVITY_MAX_PER_CHAT us) \<noteq> length us
                         | Other \<Rightarrow> False)
                     (activity (DATA st));
          st' = st\<lparr>DATA := (DATA st)\<lparr>activity := pruned\<rparr>\<rparr>
      in if changed then save_data e st' else st')"

section \<open>Helpers\<close>

text \<open>\<open>s.replace("  ", " ")\<close>: one left-to-right pass over non-overlapping double spaces.\<close>

fun replace_dsp :: "pystr \<Rightarrow> pystr" where
  "replace_dsp (a # b # cs) =
     (if a = 32 \<and> b = 32 then 32 # replace_dsp cs
      else a # replace_dsp (b # cs))"
| "replace_dsp cs = cs"

text \<open>\<open>while "  " in s: s = s.replace("  ", " ")\<close>\<close>

function collapse_spaces :: "pystr \<Rightarrow> pystr" where
  "collapse_spaces s = (if py_in [32, 32] s then collapse_spaces (replace_dsp s) else s)"
  by pat_completeness auto
termination
proof (relation "measure length")
  show "wf (measure length)" by simp
next
  fix s :: pystr
  have le: "length (replace_dsp t) \<le> length t" for t
    by (induction t rule: replace_dsp.induct) auto
  have "py_in [32, 32] t \<Longrightarrow> length (replace_dsp t) < length t" for t :: pystr
  proof (induction t rule: replace_dsp.induct)
    case (1 a b cs)
    show ?case
    proof (cases "a = 32 \<and> b = 32")
      case True
      then show ?thesis using le [of cs] by simp
    next
      case False
      with "1.prems" have "py_in [32, 32] (b # cs)" by auto
      with False "1.IH"(2) have "length (replace_dsp (b # cs)) < length (b # cs)" by blast
      with False show ?thesis by auto
    qed
  qed simp_all
  moreover assume "py_in [32, 32] s"
  ultimately show "(replace_dsp s, s) \<in> measure length" by simp
qed

declare collapse_spaces.simps [simp del]

definition norm_text :: "(pystr \<Rightarrow> pystr) \<Rightarrow> pystr \<Rightarrow> pystr" where
  "norm_text lw s = collapse_spaces (py_lower lw (py_strip s))"

text \<open>
  \<open>text_hash\<close>. \<open>s.encode("utf-8")\<close> raises \<open>UnicodeEncodeError\<close> on a string with a
  surrogate code point (\<open>None\<close> here).
\<close>

definition text_hash :: "env \<Rightarrow> pystr \<Rightarrow> string option" where
  "text_hash e s =
     (let t = norm_text (str_lower e) s
      in if list_ex (\<lambda>c. 0xD800 \<le> c \<and> c \<le> 0xDFFF) t then None else Some (sha16 e t))"

definition LINK_MARKERS :: "pystr list" where
  "LINK_MARKERS = [lit ''http://'', lit ''https://'', lit ''t.me/'', lit ''www.'']"

text \<open>
  \<open>re.search(r"(https?://|t\.me/|www\.)\S+", t)\<close>: at some position one of the
  alternatives of the group (\<open>https?://\<close> is \<open>http://\<close> or \<open>https://\<close>) stands, followed by
  at least one character that is not whitespace.
\<close>

definition link_re_heads :: "pystr list" where
  "link_re_heads = [lit ''http://'', lit ''https://'', lit ''t.me/'', lit ''www.'']"

definition link_re_match_at :: "pystr \<Rightarrow> bool" where
  "link_re_match_at s =
     list_ex (\<lambda>p. prefix p s \<and>
                  (case drop (length p) s of [] \<Rightarrow> False | c # _ \<Rightarrow> \<not> py_isspace c))
       link_re_heads"

fun link_re_search :: "pystr \<Rightarrow> bool" where
  "link_re_search [] = False"
| "link_re_search (c # cs) = (link_re_match_at (c # cs) \<or> link_re_search cs)"

definition contains_link :: "(pystr \<Rightarrow> pystr) \<Rightarrow> pystr \<Rightarrow> bool" where
  "contains_link lw txt =
     (let t = py_lower lw txt in
      if list_ex (\<lambda>m. py_in m t) LINK_MARKERS then True
      else if link_re_search t then True
      else False)"

text \<open>
  \<open>get_effective_role\<close> and \<open>ensure_can_moderate_target\<close>, for lookups that return or are
  refused; their callers below deal with a lookup that raises another exception, which
  ends the handler.
\<close>

definition get_effective_role :: "env \<Rightarrow> DATA \<Rightarrow> int \<Rightarrow> int \<Rightarrow> string option" where
  "get_effective_role e D chat_id user_id =
     (if member_status e chat_id user_id = Some ''creator'' then Some ROLE_CREATOR
      else get_role_local D chat_id user_id)"


section \<open>Messages and what the bot does to the chat\<close>

datatype chat_kind = PRIVATE | GROUP | SUPERGROUP | CHANNEL

record tg_user =
  user_id :: int
  is_bot :: bool
  tg_username :: "pystr option"

text \<open>
  The fields of an aiogram \<open>Message\<close> the handlers read. \<open>sticker\<close> and \<open>animation\<close> say
  whether the attachment is there.
\<close>

record message =
  chat_type :: chat_kind
  chat_id :: int
  from_user :: "tg_user option"
  media_group_id :: "string option"
  sticker :: bool
  animation :: bool
  msg_text :: "pystr option"
  caption :: "pystr option"

text \<open>
  The calls to the platform, in the order a run makes them. A call that the platform
  refuses, or that raises, is still listed: the entry is the attempt.
  \<open>RestrictMember chat user until\<close> is \<open>restrict_chat_member\<close> with
  \<open>can_send_messages=False\<close>.
\<close>

datatype effect =
    DeleteMessage int int
  | RestrictMember int int int
  | SendAnswer answer
  | LogAction audit

text \<open>\<open>message.text or message.caption or ""\<close>\<close>

definition text_or_caption :: "message \<Rightarrow> pystr" where
  "text_or_caption m =
     (if truthy (msg_text m) then (case msg_text m of Some t \<Rightarrow> t | None \<Rightarrow> [])
      else (case caption m of Some c \<Rightarrow> c | None \<Rightarrow> []))"

text \<open>The horizontal ellipsis, U+2026.\<close>

definition ELLIPSIS :: pystr where
  "ELLIPSIS = [0x2026]"

text \<open>
  \<open>apply_action\<close>, for the sender \<open>uid\<close> of \<open>m\<close> (its only caller has checked that the
  message has a sender). The result is the exception that leaves the function, if any,
  and the calls made.
  \<^item> \<open>message.delete()\<close>: a refusal is caught, another exception leaves the function.
  \<^item> The audit entry is built and sent inside \<open>try ... except Exception: pass\<close>: it is not
    sent when the lookup of \<open>display_user_mention\<close> raises or when
    \<open>int(settings.mute_seconds)\<close> raises, and nothing raised there leaves the function.
  \<^item> The mute, when \<open>settings.action == "mute"\<close>: \<open>int(settings.mute_seconds)\<close> may raise;
    a refusal of \<open>restrict_chat_member\<close> is caught, another exception leaves the function.
\<close>

definition apply_action ::
  "env \<Rightarrow> message \<Rightarrow> int \<Rightarrow> ChatSettings \<Rightarrow> string \<Rightarrow> py_error option \<times> effect list" where
  "apply_action e m uid s reason =
     (let cid = chat_id m;
          txt0 = py_strip (text_or_caption m);
          txt = (if length txt0 > 180 then take 180 txt0 @ ELLIPSIS else txt0);
          muting = (action s = VStr ''mute'');
          secs = py_int (int_of_str e) (mute_seconds s);
          deleted = [DeleteMessage cid uid];
          logged =
            (if mention_raises e cid uid then []
             else if muting then
               (case secs of
                  Returned n \<Rightarrow> [LogAction (AutoModLog cid uid reason (action s) (Some n) txt)]
                | Raised err \<Rightarrow> [])
             else [LogAction (AutoModLog cid uid reason (action s) None txt)])
      in if delete_out e = Broke then (Some TelegramError, deleted)
         else if \<not> muting then (None, deleted @ logged)
         else case secs of
                Raised err \<Rightarrow> (Some err, deleted @ logged)
              | Returned n \<Rightarrow>
                  (if restrict_out e = Broke then Some TelegramError else None,
                   deleted @ logged @ [RestrictMember cid uid (py_trunc (time e) + n)]))"

section \<open>The moderation core\<close>

text \<open>
  \<open>while dq and (now - dq[0]) > window: dq.popleft()\<close>, with \<open>sub\<close> the subtraction of
  floats and \<open>w\<close> the number the window setting stands for.
\<close>

fun window_trim :: "(real \<Rightarrow> real \<Rightarrow> real) \<Rightarrow> real \<Rightarrow> real \<Rightarrow> real list \<Rightarrow> real list" where
  "window_trim sub now w [] = []"
| "window_trim sub now w (t # dq) =
     (if sub now t > w then window_trim sub now w dq else t # dq)"

text \<open>
  The three rate checks are the same four lines of \<open>moderate_all\<close> with another deque,
  window and limit: append \<open>now\<close>, trim, compare the length with the limit. The result is
  the deque as left and whether the limit is exceeded. The loop condition is evaluated at
  least once (the deque holds \<open>now\<close>), so a window setting that is no number raises
  \<open>TypeError\<close> after the append; a limit that is no number raises it after the trim.
\<close>

definition rate_hit ::
  "(real \<Rightarrow> real \<Rightarrow> real) \<Rightarrow> real \<Rightarrow> val \<Rightarrow> val \<Rightarrow> real list \<Rightarrow> real list \<times> bool result" where
  "rate_hit sub now window limit dq =
     (case py_num window of
        None \<Rightarrow> (dq @ [now], Raised TypeError)
      | Some w \<Rightarrow>
          let dq' = window_trim sub now w (dq @ [now])
          in case py_num limit of
               None \<Rightarrow> (dq', Raised TypeError)
             | Some l \<Rightarrow> (dq', Returned (real (length dq') > l)))"

text \<open>
  The duplicate check's update of \<open>last_hash[cid][uid]\<close>:
  \<open>count = (count + 1) if (hsh_ == last_h) else 1\<close>.
\<close>

definition repeat_step :: "string \<Rightarrow> string \<times> int \<Rightarrow> string \<times> int" where
  "repeat_step hsh lh = (hsh, if hsh = fst lh then snd lh + 1 else 1)"

text \<open>
  Where a run of \<open>moderate_all\<close> ends: the \<open>return\<close> it takes, the end of the function, or
  (\<open>R_exception\<close>) an exception raised outside \<open>apply_action\<close>.
\<close>

datatype exit_point =
    R_not_group | R_no_sender | R_disabled | R_whitelist | R_role | R_admin
  | R_album_seen | R_album_first
  | R_sticker_ban | R_sticker_limit | R_sticker
  | R_gif_ban | R_gif_limit | R_gif
  | R_flood | R_link | R_repeat | R_end
  | R_exception

text \<open>
  A run of the handler: where it ended, the exception that left it (if any), the calls
  to the platform it made, and the state it left.
\<close>

record run =
  left_at :: exit_point
  raised :: "py_error option"
  effects :: "effect list"
  final :: state

definition quiet :: "exit_point \<Rightarrow> state \<Rightarrow> run" where
  "quiet x st = \<lparr> left_at = x, raised = None, effects = [], final = st \<rparr>"

definition threw :: "py_error \<Rightarrow> state \<Rightarrow> run" where
  "threw err st = \<lparr> left_at = R_exception, raised = Some err, effects = [], final = st \<rparr>"

text \<open>\<open>await apply_action(...); return\<close>\<close>

definition acted :: "exit_point \<Rightarrow> py_error option \<times> effect list \<Rightarrow> state \<Rightarrow> run" where
  "acted x a st = \<lparr> left_at = x, raised = fst a, effects = snd a, final = st \<rparr>"

text \<open>The album block, for a message with media group \<open>key\<close>.\<close>

definition moderate_album ::
  "env \<Rightarrow> message \<Rightarrow> ChatSettings \<Rightarrow> int \<Rightarrow> int \<Rightarrow> string \<Rightarrow> state \<Rightarrow> run" where
  "moderate_album e m s cid uid key st =
     (let seen = album_seen st (cid, uid) in
      if py_has_key key seen then quiet R_album_seen st
      else
        let seen1 = AList.update key (time e) seen;
            seen2 = (if length seen1 > 300
                     then fold AList.delete (map fst (take 100 (sort_key snd seen1))) seen1
                     else seen1);
            st1 = st\<lparr>album_seen := (album_seen st)((cid, uid) := seen2)\<rparr>;
            cap = norm_text (str_lower e) (case caption m of Some c \<Rightarrow> c | None \<Rightarrow> [])
        in if cap \<noteq> [] \<and> py_truth (block_links s) \<and> contains_link (str_lower e) cap
           then acted R_album_first (apply_action e m uid s ''album_link'') st1
           else quiet R_album_first st1)"

definition moderate_sticker ::
  "env \<Rightarrow> message \<Rightarrow> ChatSettings \<Rightarrow> int \<Rightarrow> int \<Rightarrow> state \<Rightarrow> run" where
  "moderate_sticker e m s cid uid st =
     (if sticker_mode s = VStr ''ban''
      then acted R_sticker_ban (apply_action e m uid s ''sticker_ban'') st
      else if sticker_mode s = VStr ''limit'' then
        let (dq, hit) = rate_hit (fsub e) (time e) (media_window_sec s) (sticker_limit s)
                          (sticker_times st (cid, uid));
            st1 = st\<lparr>sticker_times := (sticker_times st)((cid, uid) := dq)\<rparr>
        in case hit of
             Raised err \<Rightarrow> threw err st1
           | Returned True \<Rightarrow> acted R_sticker_limit (apply_action e m uid s ''sticker_limit'') st1
           | Returned False \<Rightarrow> quiet R_sticker st1
      else quiet R_sticker st)"

definition moderate_gif ::
  "env \<Rightarrow> message \<Rightarrow> ChatSettings \<Rightarrow> int \<Rightarrow> int \<Rightarrow> state \<Rightarrow> run" where
  "moderate_gif e m s cid uid st =
     (if gif_mode s = VStr ''ban''
      then acted R_gif_ban (apply_action e m uid s ''gif_ban'') st
      else if gif_mode s = VStr ''limit'' then
        let (dq, hit) = rate_hit (fsub e) (time e) (media_window_sec s) (gif_limit s)
                          (gif_times st (cid, uid));
            st1 = st\<lparr>gif_times := (gif_times st)((cid, uid) := dq)\<rparr>
        in case hit of
             Raised err \<Rightarrow> threw err st1
           | Returned True \<Rightarrow> acted R_gif_limit (apply_action e m uid s ''gif_limit'') st1
           | Returned False \<Rightarrow> quiet R_gif st1
      else quiet R_gif st)"

text \<open>
  The duplicate check, for a normalised text that is not empty. \<open>text_hash\<close> may raise;
  the comparison with a repeat limit that is no number raises after the new fingerprint
  and count are stored.
\<close>

definition moderate_repeat ::
  "env \<Rightarrow> message \<Rightarrow> ChatSettings \<Rightarrow> int \<Rightarrow> int \<Rightarrow> pystr \<Rightarrow> state \<Rightarrow> run" where
  "moderate_repeat e m s cid uid tnorm st =
     (case text_hash e tnorm of
        None \<Rightarrow> threw UnicodeError st
      | Some hsh \<Rightarrow>
          let lh = repeat_step hsh (last_hash st (cid, uid));
              st1 = st\<lparr>last_hash := (last_hash st)((cid, uid) := lh)\<rparr>
          in case py_num (repeat_limit s) of
               None \<Rightarrow> threw TypeError st1
             | Some r \<Rightarrow>
                 if real_of_int (snd lh) \<ge> r
                 then acted R_repeat (apply_action e m uid s ''repeat'') st1
                 else quiet R_end st1)"

text \<open>The text block: flood, then links, then repeats.\<close>

definition moderate_text ::
  "env \<Rightarrow> message \<Rightarrow> ChatSettings \<Rightarrow> int \<Rightarrow> int \<Rightarrow> state \<Rightarrow> run" where
  "moderate_text e m s cid uid st =
     (let tnorm = norm_text (str_lower e) (text_or_caption m);
          (dq, hit) = rate_hit (fsub e) (time e) (flood_window_sec s) (flood_limit s)
                        (msg_times st (cid, uid));
          st1 = st\<lparr>msg_times := (msg_times st)((cid, uid) := dq)\<rparr>
      in case hit of
           Raised err \<Rightarrow> threw err st1
         | Returned True \<Rightarrow> acted R_flood (apply_action e m uid s ''flood'') st1
         | Returned False \<Rightarrow>
             if py_truth (block_links s) \<and> tnorm \<noteq> [] \<and> contains_link (str_lower e) tnorm
               then acted R_link (apply_action e m uid s ''link'') st1
             else if tnorm \<noteq> [] then moderate_repeat e m s cid uid tnorm st1
             else quiet R_end st1)"

definition moderate_all :: "env \<Rightarrow> message \<Rightarrow> state \<Rightarrow> run" where
  "moderate_all e m st =
     (if chat_type m \<notin> {GROUP, SUPERGROUP} then quiet R_not_group st
      else case from_user m of
        None \<Rightarrow> quiet R_no_sender st
      | Some u \<Rightarrow>
          if is_bot u then quiet R_no_sender st
          else
            let st1 = upsert_activity_local (str_lower e) (chat_id m) (user_id u)
                        (py_trunc (time e)) (tg_username u) st;
                s = get_settings_local (DATA st1) (chat_id m);
                uid = user_id u;
                cid = chat_id m
            in if \<not> py_truth (enabled s) then quiet R_disabled st1
               else if is_whitelisted (DATA st1) cid uid then quiet R_whitelist st1
               else if lookup_raises e cid uid then threw TelegramError st1
               else
                 let role = get_effective_role e (DATA st1) cid uid
                 in if truthy role \<and> role_at_least role ROLE_MOD = Some True
                      then quiet R_role st1
                    else if member_status e cid uid \<in> {Some ''administrator'', Some ''creator''}
                      then quiet R_admin st1
                    else if truthy (media_group_id m)
                      then moderate_album e m s cid uid
                             (case media_group_id m of Some g \<Rightarrow> g | None \<Rightarrow> []) st1
                    else if sticker m then moderate_sticker e m s cid uid st1
                    else if animation m then moderate_gif e m s cid uid st1
                    else moderate_text e m s cid uid st1)"

section \<open>The warn command\<close>




section \<open>Readings of the state used in the statements\<close>

text \<open>The chat's stored settings record, or the defaults when none is stored.\<close>

definition stored_settings :: "DATA \<Rightarrow> int \<Rightarrow> (string, val) pydict" where
  "stored_settings D cid =
     (case map_of (settings D) (chat_key cid) of Some (Is d) \<Rightarrow> d | _ \<Rightarrow> asdict DEFAULT)"



text \<open>The timestamp of an activity record, when it has one that is an \<open>int\<close>.\<close>

definition record_ts :: "activity_info dyn \<Rightarrow> int option" where
  "record_ts info = (case info of
       Is i \<Rightarrow> (case seen_ts i of Is ts \<Rightarrow> Some ts | Other \<Rightarrow> None)
     | Other \<Rightarrow> None)"

text \<open>\<open>items[:maxn]\<close> after the sort: the \<open>maxn\<close> most recently seen records of a chat.\<close>

definition newest :: "nat \<Rightarrow> (string, activity_info dyn) pydict \<Rightarrow> (string \<times> int) list" where
  "newest maxn users = take maxn (sort_newest_first (activity_items users))"

text \<open>
  The message is a group message of chat \<open>cid\<close> sent by the user \<open>uid\<close>, who is no bot: it
  passes the first two tests of \<open>moderate_all\<close>.
\<close>

definition from_member :: "message \<Rightarrow> int \<Rightarrow> int \<Rightarrow> bool" where
  "from_member m cid uid =
     (chat_type m \<in> {GROUP, SUPERGROUP} \<and> chat_id m = cid
      \<and> (case from_user m of None \<Rightarrow> False | Some usr \<Rightarrow> \<not> is_bot usr \<and> user_id usr = uid))"

text \<open>
  The sender is let through to the checks: protection is enabled for the chat, the sender
  is not on the whitelist, the lookup does not raise, the sender's effective role is
  below moderator and the platform does not report an administrator or the owner. These
  are the gates of \<open>moderate_all\<close> between the activity update and the album block.
\<close>

definition unexempt :: "env \<Rightarrow> DATA \<Rightarrow> int \<Rightarrow> int \<Rightarrow> bool" where
  "unexempt e D cid uid =
     (py_truth (enabled (get_settings_local D cid))
      \<and> \<not> is_whitelisted D cid uid
      \<and> \<not> lookup_raises e cid uid
      \<and> \<not> (truthy (get_effective_role e D cid uid)
            \<and> role_at_least (get_effective_role e D cid uid) ROLE_MOD = Some True)
      \<and> member_status e cid uid \<notin> {Some ''administrator'', Some ''creator''})"

text \<open>Neither part of an album, nor a sticker, nor an animation: the text block sees it.\<close>

definition plain_text :: "message \<Rightarrow> bool" where
  "plain_text m = (\<not> truthy (media_group_id m) \<and> \<not> sticker m \<and> \<not> animation m)"

text \<open>
  Successive runs of \<open>moderate_all\<close>, one per incoming message with what that run reads
  from outside, each on the state the one before left.
\<close>

fun moderate_run :: "(env \<times> message) list \<Rightarrow> state \<Rightarrow> run list" where
  "moderate_run [] st = []"
| "moderate_run (em # ems) st =
     moderate_all (fst em) (snd em) st
       # moderate_run ems (final (moderate_all (fst em) (snd em) st))"

fun after_run :: "(env \<times> message) list \<Rightarrow> state \<Rightarrow> state" where
  "after_run [] st = st"
| "after_run (em # ems) st = after_run ems (final (moderate_all (fst em) (snd em) st))"

section \<open>Concrete inputs\<close>

text \<open>
  Inputs at which the theorems below are evaluated. In \<open>ex_env\<close> every call to the platform
  goes through and every member is a plain member; the subtraction is exact, as binary64
  subtraction is on the small whole numbers used as clock readings; the text is ASCII, so
  \<open>str_lower\<close> is never consulted; fingerprints are told apart by the length of the text.
\<close>

definition ex_env :: env where
  "ex_env = \<lparr> time = 1000, fsub = (\<lambda>a b. a - b), str_lower = (\<lambda>s. s),
              int_of_str = (\<lambda>s. None), sha16 = (\<lambda>s. replicate (length s) CHR ''f''),
              member_status = (\<lambda>c u. Some ''member''), lookup_raises = (\<lambda>c u. False),
              mention_raises = (\<lambda>c u. False), delete_out = Done, restrict_out = Done,
              answer_out = (\<lambda>a. Done), log_out = (\<lambda>a. Done), io_ok = True \<rparr>"

definition ex_data :: DATA where
  "ex_data = \<lparr> settings = [], roles = [(''1'', Is [(''20'', Is ''admin'')])], warns = [],
               activity = [], whitelist = [] \<rparr>"

definition ex_state :: state where
  "ex_state = \<lparr> DATA = ex_data, disk = ex_data, save_pending = False, msg_times = (\<lambda>k. []),
      last_hash = (\<lambda>k. ([], 0)), sticker_times = (\<lambda>k. []), gif_times = (\<lambda>k. []),
      album_seen = (\<lambda>k. []) \<rparr>"




text \<open>A text message of user 10 in chat 1, and the same environment at another time.\<close>

definition ex_text_msg :: "pystr \<Rightarrow> message" where
  "ex_text_msg t = \<lparr> chat_type = SUPERGROUP, chat_id = 1,
      from_user = Some \<lparr> user_id = 10, is_bot = False, tg_username = None \<rparr>,
      media_group_id = None, sticker = False, animation = False,
      msg_text = Some t, caption = None \<rparr>"

definition ex_at :: "real \<Rightarrow> env" where
  "ex_at t = ex_env\<lparr>time := t\<rparr>"

text \<open>Chat 1 with the flood limit set to 2 (the window stays at the default, 10 seconds).\<close>

definition ex_strict :: state where
  "ex_strict = ex_state\<lparr>DATA := ex_data\<lparr>settings := [(''1'', Is [(''flood_limit'', VInt 2)])]\<rparr>\<rparr>"

definition ex_users :: "(string, activity_info dyn) pydict" where
  "ex_users = [(''10'', Is \<lparr> seen_ts = Is 100, username = None \<rparr>),
               (''11'', Is \<lparr> seen_ts = Is 900, username = Some (lit ''bob'') \<rparr>),
               (''12'', Other),
               (''13'', Is \<lparr> seen_ts = Is 300, username = None \<rparr>),
               (''14'', Is \<lparr> seen_ts = Is 200, username = None \<rparr>)]"

section \<open>Keys and ranks at concrete values\<close>


lemma key_examples:
  "chat_key 1 = ''1''" "user_key 10 = ''10''" "user_key 20 = ''20''" "py_str_int 10 = ''10''"
  by (simp_all add: chat_key_def user_key_def py_str_int_def digit_char_def
      nat_digits.simps [of "Suc 0"] nat_digits.simps [of 2] nat_digits.simps [of 10]
      nat_digits.simps [of 20])

section \<open>Link detection\<close>

lemma py_in_iff: "py_in m t \<longleftrightarrow> (\<exists>ps ss. t = ps @ m @ ss)"
proof (induction t)
  case Nil
  then show ?case by auto
next
  case (Cons c cs)
  show ?case
  proof
    assume "py_in m (c # cs)"
    then consider "prefix m (c # cs)" | "py_in m cs" by auto
    then show "\<exists>ps ss. c # cs = ps @ m @ ss"
    proof cases
      case 1
      then obtain ss where "c # cs = m @ ss" by (auto simp: prefix_def)
      then have "c # cs = [] @ m @ ss" by simp
      then show ?thesis by blast
    next
      case 2
      with Cons obtain ps ss where "cs = ps @ m @ ss" by blast
      then have "c # cs = (c # ps) @ m @ ss" by simp
      then show ?thesis by blast
    qed
  next
    assume "\<exists>ps ss. c # cs = ps @ m @ ss"
    then obtain ps ss where eq: "c # cs = ps @ m @ ss" by blast
    show "py_in m (c # cs)"
    proof (cases ps)
      case Nil
      with eq have "prefix m (c # cs)" by (simp add: prefix_def)
      then show ?thesis by simp
    next
      case (Cons p ps')
      with eq have "cs = ps' @ m @ ss" by simp
      with Cons.IH have "py_in m cs" by blast
      then show ?thesis by simp
    qed
  qed
qed

lemma prefix_py_in: "prefix m s \<Longrightarrow> py_in m s"
  by (cases s) auto

lemma link_re_match_at_marker:
  "link_re_match_at s \<Longrightarrow> list_ex (\<lambda>m. prefix m s) LINK_MARKERS"
  by (auto simp: link_re_match_at_def link_re_heads_def LINK_MARKERS_def)

lemma link_re_search_marker:
  "link_re_search t \<Longrightarrow> list_ex (\<lambda>m. py_in m t) LINK_MARKERS"
proof (induction t)
  case Nil
  then show ?case by simp
next
  case (Cons c cs)
  from Cons.prems consider "link_re_match_at (c # cs)" | "link_re_search cs" by auto
  then show ?case
  proof cases
    case 1
    then have "list_ex (\<lambda>m. prefix m (c # cs)) LINK_MARKERS"
      by (rule link_re_match_at_marker)
    then show ?thesis
      unfolding list_ex_iff using prefix_py_in by blast
  next
    case 2
    then have "list_ex (\<lambda>m. py_in m cs) LINK_MARKERS" by (rule Cons.IH)
    then show ?thesis unfolding list_ex_iff by auto
  qed
qed

text \<open>
  C10. \<open>contains_link\<close> is true exactly when the lowercased text contains one of the four
  markers \<open>http://\<close>, \<open>https://\<close>, \<open>t.me/\<close>, \<open>www.\<close> as a substring; and whenever the regular
  expression of the second branch matches the lowercased text, one of the markers occurs
  in it, so the second branch never decides. This holds whatever \<open>str.lower()\<close> does to
  text outside ASCII.
\<close>

theorem contains_link_iff_marker:
  "(contains_link lw txt \<longleftrightarrow>
      (\<exists>m \<in> {lit ''http://'', lit ''https://'', lit ''t.me/'', lit ''www.''}.
         \<exists>ps ss. py_lower lw txt = ps @ m @ ss))
   \<and> (link_re_search (py_lower lw txt) \<longrightarrow>
         (\<exists>m \<in> {lit ''http://'', lit ''https://'', lit ''t.me/'', lit ''www.''}.
            py_in m (py_lower lw txt)))"
proof -
  have re: "link_re_search (py_lower lw txt) \<longrightarrow> list_ex (\<lambda>m. py_in m (py_lower lw txt)) LINK_MARKERS"
    using link_re_search_marker by blast
  have "contains_link lw txt \<longleftrightarrow> list_ex (\<lambda>m. py_in m (py_lower lw txt)) LINK_MARKERS"
    using re by (auto simp: contains_link_def Let_def)
  then show ?thesis
    using re by (simp add: LINK_MARKERS_def py_in_iff)
qed

theorem contains_link_iff_marker_witness:
  "contains_link (\<lambda>s. s) (lit ''Visit WWW.Example.org now'')
   \<and> link_re_search (py_lower (\<lambda>s. s) (lit ''Visit WWW.Example.org now''))
   \<and> \<not> contains_link (\<lambda>s. s) (lit ''www without the dot, http:/ /x'')"
  using contains_link_iff_marker [of "\<lambda>s. s" "lit ''Visit WWW.Example.org now''"]
    contains_link_iff_marker [of "\<lambda>s. s" "lit ''www without the dot, http:/ /x''"]
  by (simp add: py_lower_def ascii_lower_def lit_def link_re_match_at_def link_re_heads_def
      py_isspace_def py_in_iff [symmetric])

section \<open>Who may moderate whom\<close>




section \<open>Settings mutation\<close>

lemma field_names: "map fst (asdict DEFAULT) =
  [''enabled'', ''flood_limit'', ''flood_window_sec'', ''repeat_limit'', ''block_links'',
   ''sticker_mode'', ''gif_mode'', ''sticker_limit'', ''gif_limit'', ''media_window_sec'',
   ''action'', ''mute_seconds'', ''cleanup_enabled'', ''cleanup_days'', ''cleanup_mode'']"
  by (simp add: asdict_def)

text \<open>
  C7. \<open>set_setting_local\<close> raises \<open>ValueError\<close> exactly when the field is not one of the
  fifteen field names of \<open>ChatSettings\<close>, and then leaves the whole state (store, file and
  memory) as it was. For a field it knows it returns normally; the chat's stored record
  (started from the defaults when the chat had none) then maps the field to the new value
  and every other key as before, the records of other chats and the other namespaces are
  as before, and the file holds the new store when the write succeeds (\<open>save_data\<close>
  swallows a failed write, which leaves the file as it was).
\<close>

theorem set_setting_local_spec:
  "(fst (set_setting_local e c f v st) = Raised ValueError \<longleftrightarrow>
      f \<notin> set [''enabled'', ''flood_limit'', ''flood_window_sec'', ''repeat_limit'', ''block_links'',
       ''sticker_mode'', ''gif_mode'', ''sticker_limit'', ''gif_limit'', ''media_window_sec'',
       ''action'', ''mute_seconds'', ''cleanup_enabled'', ''cleanup_days'', ''cleanup_mode''])
   \<and> (fst (set_setting_local e c f v st) = Raised ValueError \<longrightarrow>
        snd (set_setting_local e c f v st) = st)
   \<and> (fst (set_setting_local e c f v st) \<noteq> Raised ValueError \<longrightarrow>
        fst (set_setting_local e c f v st) = Returned ()
        \<and> (\<exists>d'. map_of (settings (DATA (snd (set_setting_local e c f v st)))) (chat_key c) = Some (Is d')
                \<and> map_of d' = (map_of (stored_settings (DATA st) c))(f \<mapsto> v)
                \<and> stored_settings (DATA (snd (set_setting_local e c f v st))) c = d')
        \<and> (\<forall>k. k \<noteq> chat_key c \<longrightarrow>
              map_of (settings (DATA (snd (set_setting_local e c f v st)))) k
                = map_of (settings (DATA st)) k)
        \<and> DATA (snd (set_setting_local e c f v st))
            = (DATA st)\<lparr>settings := settings (DATA (snd (set_setting_local e c f v st)))\<rparr>
        \<and> disk (snd (set_setting_local e c f v st))
            = (if io_ok e then DATA (snd (set_setting_local e c f v st)) else disk st))"
  unfolding set_setting_local_def field_names stored_settings_def
  by (auto simp: Let_def save_data_def update_conv' split: option.splits dyn.splits)

theorem set_setting_local_spec_witness:
  "fst (set_setting_local ex_env 1 ''flood_limt'' (VInt 7) ex_state) = Raised ValueError
   \<and> snd (set_setting_local ex_env 1 ''flood_limt'' (VInt 7) ex_state) = ex_state
   \<and> fst (set_setting_local ex_env 1 ''flood_limit'' (VInt 7) ex_state) = Returned ()
   \<and> map_of (stored_settings (DATA (snd (set_setting_local ex_env 1 ''flood_limit'' (VInt 7) ex_state))) 1)
        ''flood_limit'' = Some (VInt 7)
   \<and> map_of (stored_settings (DATA (snd (set_setting_local ex_env 1 ''flood_limit'' (VInt 7) ex_state))) 1)
        ''repeat_limit'' = Some (VInt 3)
   \<and> disk (snd (set_setting_local ex_env 1 ''flood_limit'' (VInt 7) ex_state))
        = DATA (snd (set_setting_local ex_env 1 ''flood_limit'' (VInt 7) ex_state))"
proof -
  have d: "stored_settings (DATA ex_state) 1 = asdict DEFAULT"
    by (simp add: stored_settings_def ex_state_def ex_data_def)
  have io: "io_ok ex_env" by (simp add: ex_env_def)
  from set_setting_local_spec [of ex_env 1 "''flood_limt''" "VInt 7" ex_state]
  have bad: "fst (set_setting_local ex_env 1 ''flood_limt'' (VInt 7) ex_state) = Raised ValueError
     \<and> snd (set_setting_local ex_env 1 ''flood_limt'' (VInt 7) ex_state) = ex_state"
    by simp
  from set_setting_local_spec [of ex_env 1 "''flood_limit''" "VInt 7" ex_state]
  have good: "fst (set_setting_local ex_env 1 ''flood_limit'' (VInt 7) ex_state) = Returned ()
     \<and> map_of (stored_settings (DATA (snd (set_setting_local ex_env 1 ''flood_limit'' (VInt 7) ex_state))) 1)
          = (map_of (asdict DEFAULT))(''flood_limit'' \<mapsto> VInt 7)
     \<and> disk (snd (set_setting_local ex_env 1 ''flood_limit'' (VInt 7) ex_state))
          = DATA (snd (set_setting_local ex_env 1 ''flood_limit'' (VInt 7) ex_state))"
    by (auto simp: d io)
  from bad good show ?thesis by (simp add: asdict_def DEFAULT_def)
qed

section \<open>Activity pruning\<close>

lemma activity_items_set:
  "set (activity_items users) = {(k, ts). \<exists>info. (k, info) \<in> set users \<and> record_ts info = Some ts}"
proof (induction users)
  case Nil
  then show ?case by (simp add: activity_items_def)
next
  case (Cons p users)
  obtain k info where p: "p = (k, info)" by (cases p)
  have "activity_items (p # users)
          = (case record_ts info of Some ts \<Rightarrow> [(k, ts)] | None \<Rightarrow> []) @ activity_items users"
    by (simp add: activity_items_def record_ts_def p split: dyn.splits)
  then show ?case
    using Cons.IH by (auto simp: p split: option.splits)
qed

lemma set_sort_newest_first [simp]: "set (sort_newest_first items) = set items"
  by (simp add: sort_newest_first_def)

lemma keep_keys_set:
  "set (keep_keys cutoff maxn users)
     = {k. \<exists>ts. (k, ts) \<in> set (activity_items users) \<and> (ts \<ge> cutoff \<or> (k, ts) \<in> set (newest maxn users))}"
proof -
  have "set (newest maxn users) \<subseteq> set (activity_items users)"
    unfolding newest_def using set_take_subset [of maxn "sort_newest_first (activity_items users)"] by simp
  then show ?thesis
    unfolding keep_keys_def newest_def Let_def by force
qed

lemma keep_keys_subset: "set (keep_keys cutoff maxn users) \<subseteq> fst ` set users"
  unfolding keep_keys_set activity_items_set by force

lemma prune_users_filter:
  assumes "distinct (map fst users)"
  shows "prune_users cutoff maxn users
           = filter (\<lambda>(k, info). k \<in> set (keep_keys cutoff maxn users)) users"
proof (cases "length (remdups (keep_keys cutoff maxn users)) \<noteq> length users")
  case True
  then show ?thesis by (simp add: prune_users_def Let_def)
next
  case False
  then have "card (set (keep_keys cutoff maxn users)) = length users"
    by (simp add: card_set)
  also have "length users = card (fst ` set users)"
    using assms by (metis distinct_card length_map set_map)
  finally have "set (keep_keys cutoff maxn users) = fst ` set users"
    using keep_keys_subset [of cutoff maxn users]
    by (metis List.finite_set card_subset_eq finite_imageI)
  then have "filter (\<lambda>(k, info). k \<in> set (keep_keys cutoff maxn users)) users = users"
    by (force simp: filter_id_conv)
  with False show ?thesis by (simp add: prune_users_def Let_def)
qed

lemma prune_users_exact:
  assumes "distinct (map fst users)"
  shows "prune_users cutoff maxn users
           = filter (\<lambda>(k, info). case record_ts info of
                        Some ts \<Rightarrow> ts \<ge> cutoff \<or> (k, ts) \<in> set (newest maxn users)
                      | None \<Rightarrow> False) users"
proof -
  have "k \<in> set (keep_keys cutoff maxn users)
          \<longleftrightarrow> (case record_ts info of
                 Some ts \<Rightarrow> ts \<ge> cutoff \<or> (k, ts) \<in> set (newest maxn users)
               | None \<Rightarrow> False)"
    if "(k, info) \<in> set users" for k info
  proof -
    have uniq: "info' = info" if "(k, info') \<in> set users" for info'
      using eq_key_imp_eq_value [OF assms that \<open>(k, info) \<in> set users\<close>] .
    have items: "(k, ts) \<in> set (activity_items users) \<longleftrightarrow> record_ts info = Some ts" for ts
    proof
      assume "(k, ts) \<in> set (activity_items users)"
      then obtain info' where "(k, info') \<in> set users" and ts: "record_ts info' = Some ts"
        unfolding activity_items_set by blast
      then have "info' = info" by (simp only: uniq)
      with ts show "record_ts info = Some ts" by simp
    next
      assume "record_ts info = Some ts"
      with that show "(k, ts) \<in> set (activity_items users)"
        unfolding activity_items_set by blast
    qed
    show ?thesis
      unfolding keep_keys_set by (cases "record_ts info") (simp_all add: items)
  qed
  then have "filter (\<lambda>(k, info). k \<in> set (keep_keys cutoff maxn users)) users
      = filter (\<lambda>(k, info). case record_ts info of
                        Some ts \<Rightarrow> ts \<ge> cutoff \<or> (k, ts) \<in> set (newest maxn users)
                      | None \<Rightarrow> False) users"
    by (intro filter_cong) auto
  then show ?thesis using prune_users_filter [OF assms] by simp
qed

lemma newest_length: "length (newest maxn users) = min maxn (length (activity_items users))"
  by (simp add: newest_def sort_newest_first_def min.commute)

lemma newest_newer:
  assumes "(k, ts) \<in> set (newest maxn users)"
    and "(k', ts') \<in> set (activity_items users)" and "(k', ts') \<notin> set (newest maxn users)"
  shows "ts' \<le> ts"
proof -
  let ?l = "sort_newest_first (activity_items users)"
  have "sorted (map (\<lambda>x. - snd x) (take maxn ?l @ drop maxn ?l))"
    by (simp add: sort_newest_first_def)
  then have *: "\<forall>x\<in>set (take maxn ?l). \<forall>y\<in>set (drop maxn ?l). - snd x \<le> - snd y"
    unfolding map_append sorted_append by auto
  have "(k', ts') \<in> set (take maxn ?l) \<union> set (drop maxn ?l)"
    using assms(2) by (metis append_take_drop_id set_append set_sort_newest_first)
  with assms(3) have "(k', ts') \<in> set (drop maxn ?l)" by (simp add: newest_def)
  with * assms(1) show ?thesis by (fastforce simp: newest_def)
qed

lemma prune_activity_once_activity0:
  "activity (DATA (prune_activity_once e st))
     = map (\<lambda>(ck, users). case users of
                 Is us \<Rightarrow> (ck, Is (prune_users (py_trunc (time e) - ACTIVITY_KEEP_DAYS * 86400)
                                    ACTIVITY_MAX_PER_CHAT us))
               | Other \<Rightarrow> (ck, Other))
         (activity (DATA st))"
  by (simp add: prune_activity_once_def Let_def save_data_def)

text \<open>
  C9. One pruning pass replaces every chat's activity dictionary by \<open>prune_users\<close> of it,
  with the cutoff 180 days before now and the cap 20000. For a dictionary (distinct keys),
  \<open>prune_users\<close> keeps, in their order, exactly the records that have an integer
  timestamp which is at least the cutoff or which is among \<open>newest\<close>, the first \<open>maxn\<close>
  records of the newest-first order; every other record is deleted. \<open>newest\<close> holds
  \<open>maxn\<close> records (all of them when there are fewer), and none of the records outside it
  was seen later than one inside it.
\<close>

theorem prune_activity_once_retains:
  "activity (DATA (prune_activity_once e st))
     = map (\<lambda>(ck, users). case users of
                 Is us \<Rightarrow> (ck, Is (prune_users (py_trunc (time e) - 180 * 86400) 20000 us))
               | Other \<Rightarrow> (ck, Other))
         (activity (DATA st))
   \<and> (distinct (map fst users) \<longrightarrow>
        prune_users cutoff maxn users
          = filter (\<lambda>(k, info). case record_ts info of
                       Some ts \<Rightarrow> ts \<ge> cutoff \<or> (k, ts) \<in> set (newest maxn users)
                     | None \<Rightarrow> False) users)
   \<and> length (newest maxn users) = min maxn (length (activity_items users))
   \<and> set (newest maxn users) \<subseteq> set (activity_items users)
   \<and> (\<forall>k ts k' ts'. (k, ts) \<in> set (newest maxn users)
          \<and> (k', ts') \<in> set (activity_items users) \<and> (k', ts') \<notin> set (newest maxn users)
          \<longrightarrow> ts' \<le> ts)"
proof -
  have A: "activity (DATA (prune_activity_once e st))
     = map (\<lambda>(ck, users). case users of
                 Is us \<Rightarrow> (ck, Is (prune_users (py_trunc (time e) - 180 * 86400) 20000 us))
               | Other \<Rightarrow> (ck, Other))
         (activity (DATA st))"
    using prune_activity_once_activity0 [of e st]
    by (simp only: ACTIVITY_KEEP_DAYS_def ACTIVITY_MAX_PER_CHAT_def)
  have B: "distinct (map fst users) \<longrightarrow>
        prune_users cutoff maxn users
          = filter (\<lambda>(k, info). case record_ts info of
                       Some ts \<Rightarrow> ts \<ge> cutoff \<or> (k, ts) \<in> set (newest maxn users)
                     | None \<Rightarrow> False) users"
    using prune_users_exact [of users cutoff maxn] by (rule impI)
  have C: "length (newest maxn users) = min maxn (length (activity_items users))"
    by (rule newest_length)
  have D: "set (newest maxn users) \<subseteq> set (activity_items users)"
    unfolding newest_def
    using set_take_subset [of maxn "sort_newest_first (activity_items users)"] by simp
  have E: "\<forall>k ts k' ts'. (k, ts) \<in> set (newest maxn users)
          \<and> (k', ts') \<in> set (activity_items users) \<and> (k', ts') \<notin> set (newest maxn users)
          \<longrightarrow> ts' \<le> ts"
    using newest_newer [of _ _ maxn users] by blast
  from A B C D E show ?thesis by (intro conjI)
qed


lemma ex_users_items:
  "activity_items ex_users = [(''10'', 100), (''11'', 900), (''13'', 300), (''14'', 200)]"
  by (simp add: activity_items_def ex_users_def)

lemma ex_users_newest: "newest 2 ex_users = [(''11'', 900), (''13'', 300)]"
  by (simp add: newest_def ex_users_items sort_newest_first_def numeral_2_eq_2)

theorem prune_activity_once_retains_witness:
  "prune_users 250 2 ex_users
     = [(''11'', Is \<lparr> seen_ts = Is 900, username = Some (lit ''bob'') \<rparr>),
        (''13'', Is \<lparr> seen_ts = Is 300, username = None \<rparr>)]
   \<and> prune_users 1000 2 ex_users = prune_users 250 2 ex_users
   \<and> prune_users 150 2 ex_users
     = [(''11'', Is \<lparr> seen_ts = Is 900, username = Some (lit ''bob'') \<rparr>),
        (''13'', Is \<lparr> seen_ts = Is 300, username = None \<rparr>),
        (''14'', Is \<lparr> seen_ts = Is 200, username = None \<rparr>)]"
proof -
  have d: "distinct (map fst ex_users)" by (simp add: ex_users_def)
  have f: "prune_users c 2 ex_users
          = filter (\<lambda>(k, info). case record_ts info of
                       Some ts \<Rightarrow> ts \<ge> c \<or> (k, ts) \<in> set (newest 2 ex_users)
                     | None \<Rightarrow> False) ex_users" for c
  proof -
    from prune_activity_once_retains [of ex_env ex_state ex_users c 2]
    have "distinct (map fst ex_users) \<longrightarrow> prune_users c 2 ex_users
          = filter (\<lambda>(k, info). case record_ts info of
                       Some ts \<Rightarrow> ts \<ge> c \<or> (k, ts) \<in> set (newest 2 ex_users)
                     | None \<Rightarrow> False) ex_users"
      by (rule conjunct2 [THEN conjunct1])
    with d show ?thesis by (rule rev_mp)
  qed
  show ?thesis
    by (simp only: f ex_users_newest) (simp add: ex_users_def record_ts_def)
qed

section \<open>The moderation pipeline\<close>

lemma run_fields [simp]:
  "left_at (quiet x st) = x" "raised (quiet x st) = None" "effects (quiet x st) = []"
  "final (quiet x st) = st"
  "left_at (threw err st) = R_exception" "raised (threw err st) = Some err"
  "effects (threw err st) = []" "final (threw err st) = st"
  "left_at (acted x a st) = x" "raised (acted x a st) = fst a" "effects (acted x a st) = snd a"
  "final (acted x a st) = st"
  by (simp_all add: quiet_def threw_def acted_def)

lemma upsert_frame [simp]:
  "settings (DATA (upsert_activity_local lw c u ts n st)) = settings (DATA st)"
  "roles (DATA (upsert_activity_local lw c u ts n st)) = roles (DATA st)"
  "warns (DATA (upsert_activity_local lw c u ts n st)) = warns (DATA st)"
  "whitelist (DATA (upsert_activity_local lw c u ts n st)) = whitelist (DATA st)"
  "disk (upsert_activity_local lw c u ts n st) = disk st"
  "msg_times (upsert_activity_local lw c u ts n st) = msg_times st"
  "last_hash (upsert_activity_local lw c u ts n st) = last_hash st"
  "sticker_times (upsert_activity_local lw c u ts n st) = sticker_times st"
  "gif_times (upsert_activity_local lw c u ts n st) = gif_times st"
  "album_seen (upsert_activity_local lw c u ts n st) = album_seen st"
  by (simp_all add: upsert_activity_local_def Let_def)

text \<open>What the gates read depends on the settings, roles and whitelist only.\<close>

lemma gates_cong:
  assumes "settings D' = settings D" "roles D' = roles D" "whitelist D' = whitelist D"
  shows "get_settings_local D' c = get_settings_local D c"
    and "is_whitelisted D' c u = is_whitelisted D c u"
    and "get_effective_role e D' c u = get_effective_role e D c u"
    and "unexempt e D' c u = unexempt e D c u"
proof -
  show s: "get_settings_local D' c = get_settings_local D c"
    by (simp add: get_settings_local_def assms)
  show w: "is_whitelisted D' c u = is_whitelisted D c u"
    by (simp add: is_whitelisted_def assms)
  show r: "get_effective_role e D' c u = get_effective_role e D c u"
    by (simp add: get_effective_role_def get_role_local_def assms)
  show "unexempt e D' c u = unexempt e D c u"
    by (simp add: unexempt_def s w r)
qed

lemmas upsert_reads =
  gates_cong [of "DATA (upsert_activity_local lw c' u' ts n st)" "DATA st" for lw c' u' ts n st,
    OF upsert_frame(1) upsert_frame(2) upsert_frame(4)]

text \<open>
  For a group message of a sender who is let through, \<open>moderate_all\<close> records the
  activity and hands the message to one of the four blocks.
\<close>

lemma moderate_all_checked:
  assumes "from_member m c u" "unexempt e (DATA st) c u" "from_user m = Some usr"
  shows "moderate_all e m st =
     (let st1 = upsert_activity_local (str_lower e) c u (py_trunc (time e)) (tg_username usr) st;
          s = get_settings_local (DATA st) c
      in if truthy (media_group_id m)
           then moderate_album e m s c u (case media_group_id m of Some g \<Rightarrow> g | None \<Rightarrow> []) st1
         else if sticker m then moderate_sticker e m s c u st1
         else if animation m then moderate_gif e m s c u st1
         else moderate_text e m s c u st1)"
proof -
  from assms(1,3) have g: "chat_type m \<in> {GROUP, SUPERGROUP}" "chat_id m = c" "\<not> is_bot usr"
    "user_id usr = u"
    by (simp_all add: from_member_def)
  from assms(2) have x: "py_truth (enabled (get_settings_local (DATA st) c))"
    "\<not> is_whitelisted (DATA st) c u" "\<not> lookup_raises e c u"
    "\<not> (truthy (get_effective_role e (DATA st) c u)
         \<and> role_at_least (get_effective_role e (DATA st) c u) ROLE_MOD = Some True)"
    "member_status e c u \<noteq> Some ''administrator''" "member_status e c u \<noteq> Some ''creator''"
    by (simp_all add: unexempt_def)
  show ?thesis
    unfolding moderate_all_def
    using g x by (auto simp: assms(3) Let_def upsert_reads)
qed

text \<open>The blocks leave the file store alone, and each touches its own table only.\<close>

lemma moderate_repeat_frame [simp]:
  "DATA (final (moderate_repeat e m s c u t st)) = DATA st"
  "disk (final (moderate_repeat e m s c u t st)) = disk st"
  "save_pending (final (moderate_repeat e m s c u t st)) = save_pending st"
  "msg_times (final (moderate_repeat e m s c u t st)) = msg_times st"
  "sticker_times (final (moderate_repeat e m s c u t st)) = sticker_times st"
  "gif_times (final (moderate_repeat e m s c u t st)) = gif_times st"
  "album_seen (final (moderate_repeat e m s c u t st)) = album_seen st"
  by (simp_all add: moderate_repeat_def Let_def split: option.splits)

lemma moderate_text_frame [simp]:
  "DATA (final (moderate_text e m s c u st)) = DATA st"
  "disk (final (moderate_text e m s c u st)) = disk st"
  "save_pending (final (moderate_text e m s c u st)) = save_pending st"
  "sticker_times (final (moderate_text e m s c u st)) = sticker_times st"
  "gif_times (final (moderate_text e m s c u st)) = gif_times st"
  "album_seen (final (moderate_text e m s c u st)) = album_seen st"
  by (simp_all add: moderate_text_def Let_def split_beta split: result.splits bool.splits)

lemma moderate_sticker_frame [simp]:
  "DATA (final (moderate_sticker e m s c u st)) = DATA st"
  "disk (final (moderate_sticker e m s c u st)) = disk st"
  "save_pending (final (moderate_sticker e m s c u st)) = save_pending st"
  "msg_times (final (moderate_sticker e m s c u st)) = msg_times st"
  "last_hash (final (moderate_sticker e m s c u st)) = last_hash st"
  "gif_times (final (moderate_sticker e m s c u st)) = gif_times st"
  "album_seen (final (moderate_sticker e m s c u st)) = album_seen st"
  by (simp_all add: moderate_sticker_def Let_def split_beta split: result.splits bool.splits)

lemma moderate_gif_frame [simp]:
  "DATA (final (moderate_gif e m s c u st)) = DATA st"
  "disk (final (moderate_gif e m s c u st)) = disk st"
  "save_pending (final (moderate_gif e m s c u st)) = save_pending st"
  "msg_times (final (moderate_gif e m s c u st)) = msg_times st"
  "last_hash (final (moderate_gif e m s c u st)) = last_hash st"
  "sticker_times (final (moderate_gif e m s c u st)) = sticker_times st"
  "album_seen (final (moderate_gif e m s c u st)) = album_seen st"
  by (simp_all add: moderate_gif_def Let_def split_beta split: result.splits bool.splits)

lemma moderate_album_frame [simp]:
  "DATA (final (moderate_album e m s c u k st)) = DATA st"
  "disk (final (moderate_album e m s c u k st)) = disk st"
  "save_pending (final (moderate_album e m s c u k st)) = save_pending st"
  "msg_times (final (moderate_album e m s c u k st)) = msg_times st"
  "last_hash (final (moderate_album e m s c u k st)) = last_hash st"
  "sticker_times (final (moderate_album e m s c u k st)) = sticker_times st"
  "gif_times (final (moderate_album e m s c u k st)) = gif_times st"
  by (simp_all add: moderate_album_def Let_def)

text \<open>
  Every run of \<open>moderate_all\<close> ends in one of three ways: before the activity update,
  with the state as it was; at a gate after it, with the activity update as the only
  change; or in one of the blocks, entered on the state after the activity update.
\<close>

lemma moderate_all_cases:
  obtains (skip) "moderate_all e m st = quiet (left_at (moderate_all e m st)) st"
      and "left_at (moderate_all e m st) \<in> {R_not_group, R_no_sender}"
  | (gate) usr where "from_user m = Some usr"
      and "final (moderate_all e m st)
             = upsert_activity_local (str_lower e) (chat_id m) (user_id usr) (py_trunc (time e))
                 (tg_username usr) st"
      and "effects (moderate_all e m st) = []"
      and "left_at (moderate_all e m st) \<in> {R_disabled, R_whitelist, R_role, R_admin, R_exception}"
  | (checked) usr where "from_user m = Some usr" and "from_member m (chat_id m) (user_id usr)"
      and "unexempt e (DATA st) (chat_id m) (user_id usr)"
proof (cases "chat_type m \<in> {GROUP, SUPERGROUP} \<and> from_user m \<noteq> None
                \<and> \<not> is_bot (the (from_user m))")
  case False
  then have "moderate_all e m st = quiet (left_at (moderate_all e m st)) st
      \<and> left_at (moderate_all e m st) \<in> {R_not_group, R_no_sender}"
    by (auto simp: moderate_all_def split: option.splits)
  then show ?thesis using skip by blast
next
  case True
  then obtain usr where usr: "from_user m = Some usr" "\<not> is_bot usr"
    "chat_type m \<in> {GROUP, SUPERGROUP}"
    by auto
  then have fm: "from_member m (chat_id m) (user_id usr)"
    by (simp add: from_member_def)
  show ?thesis
  proof (cases "unexempt e (DATA st) (chat_id m) (user_id usr)")
    case True
    with usr(1) fm show ?thesis by (rule checked)
  next
    case False
    then have "final (moderate_all e m st)
             = upsert_activity_local (str_lower e) (chat_id m) (user_id usr) (py_trunc (time e))
                 (tg_username usr) st
      \<and> effects (moderate_all e m st) = []
      \<and> left_at (moderate_all e m st) \<in> {R_disabled, R_whitelist, R_role, R_admin, R_exception}"
      unfolding moderate_all_def unexempt_def
      using usr by (auto simp: Let_def upsert_reads)
    with usr(1) show ?thesis using gate by blast
  qed
qed

text \<open>No run changes the settings, the roles, the warnings or the whitelist.\<close>

lemma moderate_all_store [simp]:
  "settings (DATA (final (moderate_all e m st))) = settings (DATA st)"
  "roles (DATA (final (moderate_all e m st))) = roles (DATA st)"
  "warns (DATA (final (moderate_all e m st))) = warns (DATA st)"
  "whitelist (DATA (final (moderate_all e m st))) = whitelist (DATA st)"
proof -
  have "settings (DATA (final (moderate_all e m st))) = settings (DATA st)
      \<and> roles (DATA (final (moderate_all e m st))) = roles (DATA st)
      \<and> warns (DATA (final (moderate_all e m st))) = warns (DATA st)
      \<and> whitelist (DATA (final (moderate_all e m st))) = whitelist (DATA st)"
  proof (cases e m st rule: moderate_all_cases)
    case skip
    from skip(1) have "final (moderate_all e m st) = st"
      by (metis run_fields(4))
    then show ?thesis by simp
  next
    case (gate usr)
    then show ?thesis by simp
  next
    case (checked usr)
    show ?thesis
      by (simp add: moderate_all_checked [OF checked(2,3,1)] Let_def)
  qed
  then show "settings (DATA (final (moderate_all e m st))) = settings (DATA st)"
    "roles (DATA (final (moderate_all e m st))) = roles (DATA st)"
    "warns (DATA (final (moderate_all e m st))) = warns (DATA st)"
    "whitelist (DATA (final (moderate_all e m st))) = whitelist (DATA st)"
    by simp_all
qed

lemmas moderate_all_reads =
  gates_cong [of "DATA (final (moderate_all e' m' st'))" "DATA st'" for e' m' st',
    OF moderate_all_store(1) moderate_all_store(2) moderate_all_store(4)]

section \<open>Warnings\<close>











section \<open>Rate windows\<close>

lemma window_trim_dropWhile: "window_trim sub now w dq = dropWhile (\<lambda>t. sub now t > w) dq"
  by (induction dq) simp_all

lemma rate_hit_int:
  "rate_hit sub now (VInt W) (VInt L) dq
     = (dropWhile (\<lambda>t. sub now t > of_int W) (dq @ [now]),
        Returned (int (length (dropWhile (\<lambda>t. sub now t > of_int W) (dq @ [now]))) > L))"
proof -
  have "real n > real_of_int L \<longleftrightarrow> int n > L" for n
    by linarith
  then show ?thesis
    by (simp add: rate_hit_def Let_def window_trim_dropWhile)
qed

lemma dropWhile_sorted_filter:
  assumes "sorted xs" and "\<And>a b. a \<le> b \<Longrightarrow> P b \<Longrightarrow> P a"
  shows "dropWhile P xs = filter (\<lambda>t. \<not> P t) (xs :: real list)"
  using assms(1)
proof (induction xs)
  case Nil
  then show ?case by simp
next
  case (Cons t xs)
  show ?case
  proof (cases "P t")
    case True
    with Cons show ?thesis by simp
  next
    case False
    have "\<not> P x" if "x \<in> set xs" for x
    proof
      assume "P x"
      moreover from Cons.prems that have "t \<le> x" by simp
      ultimately have "P t" using assms(2) by blast
      with False show False ..
    qed
    then have "filter (\<lambda>t. \<not> P t) xs = xs"
      by (simp add: filter_id_conv)
    with False show ?thesis by simp
  qed
qed

lemma rate_hit_chronological:
  assumes "sorted (dq @ [now])" and "\<And>a b. a \<le> b \<Longrightarrow> sub now b \<le> sub now a"
  shows "fst (rate_hit sub now (VInt W) (VInt L) dq)
           = filter (\<lambda>t. \<not> sub now t > of_int W) (dq @ [now])"
proof -
  have "dropWhile (\<lambda>t. sub now t > of_int W) (dq @ [now])
          = filter (\<lambda>t. \<not> sub now t > of_int W) (dq @ [now])"
  proof (rule dropWhile_sorted_filter [OF assms(1)])
    fix a b :: real
    assume "a \<le> b" "real_of_int W < sub now b"
    with assms(2) [of a b] show "real_of_int W < sub now a" by linarith
  qed
  then show ?thesis by (simp add: rate_hit_int)
qed

text \<open>The three rate checks inside their blocks.\<close>

lemma moderate_text_flood:
  assumes "flood_window_sec s = VInt W" "flood_limit s = VInt L"
  shows "msg_times (final (moderate_text e m s c u st))
           = (msg_times st)((c, u) := fst (rate_hit (fsub e) (time e) (VInt W) (VInt L)
                                              (msg_times st (c, u))))"
    and "left_at (moderate_text e m s c u st) = R_flood
           \<longleftrightarrow> snd (rate_hit (fsub e) (time e) (VInt W) (VInt L) (msg_times st (c, u)))
                 = Returned True"
    and "left_at (moderate_text e m s c u st) = R_flood
           \<Longrightarrow> effects (moderate_text e m s c u st) = snd (apply_action e m u s ''flood'')"
  by (auto simp: moderate_text_def moderate_repeat_def rate_hit_int assms Let_def
      split: option.splits bool.splits)

lemma moderate_sticker_limit:
  assumes "sticker_mode s = VStr ''limit''" "media_window_sec s = VInt W" "sticker_limit s = VInt L"
  shows "sticker_times (final (moderate_sticker e m s c u st))
           = (sticker_times st)((c, u) := fst (rate_hit (fsub e) (time e) (VInt W) (VInt L)
                                                  (sticker_times st (c, u))))"
    and "left_at (moderate_sticker e m s c u st) = R_sticker_limit
           \<longleftrightarrow> snd (rate_hit (fsub e) (time e) (VInt W) (VInt L) (sticker_times st (c, u)))
                 = Returned True"
    and "left_at (moderate_sticker e m s c u st) = R_sticker_limit
           \<Longrightarrow> effects (moderate_sticker e m s c u st) = snd (apply_action e m u s ''sticker_limit'')"
  by (auto simp: moderate_sticker_def rate_hit_int assms Let_def split: bool.splits)

lemma moderate_gif_limit:
  assumes "gif_mode s = VStr ''limit''" "media_window_sec s = VInt W" "gif_limit s = VInt L"
  shows "gif_times (final (moderate_gif e m s c u st))
           = (gif_times st)((c, u) := fst (rate_hit (fsub e) (time e) (VInt W) (VInt L)
                                              (gif_times st (c, u))))"
    and "left_at (moderate_gif e m s c u st) = R_gif_limit
           \<longleftrightarrow> snd (rate_hit (fsub e) (time e) (VInt W) (VInt L) (gif_times st (c, u)))
                 = Returned True"
    and "left_at (moderate_gif e m s c u st) = R_gif_limit
           \<Longrightarrow> effects (moderate_gif e m s c u st) = snd (apply_action e m u s ''gif_limit'')"
  by (auto simp: moderate_gif_def rate_hit_int assms Let_def split: bool.splits)

text \<open>The same, for the whole handler and the settings it reads.\<close>

lemma moderate_all_text:
  assumes "from_member m c u" "unexempt e (DATA st) c u" "plain_text m"
  shows "\<exists>st1. moderate_all e m st = moderate_text e m (get_settings_local (DATA st) c) c u st1
           \<and> msg_times st1 = msg_times st \<and> last_hash st1 = last_hash st"
proof -
  from assms(1) obtain usr where usr: "from_user m = Some usr"
    by (auto simp: from_member_def split: option.splits)
  let ?st1 = "upsert_activity_local (str_lower e) c u (py_trunc (time e)) (tg_username usr) st"
  have "moderate_all e m st = moderate_text e m (get_settings_local (DATA st) c) c u ?st1"
    using assms(3)
    by (simp add: moderate_all_checked [OF assms(1,2) usr] plain_text_def Let_def)
  moreover have "msg_times ?st1 = msg_times st" "last_hash ?st1 = last_hash st"
    by simp_all
  ultimately show ?thesis by blast
qed

lemma moderate_all_flood:
  assumes "from_member m c u" "unexempt e (DATA st) c u" "plain_text m"
    and "flood_window_sec (get_settings_local (DATA st) c) = VInt W"
    and "flood_limit (get_settings_local (DATA st) c) = VInt L"
  shows "msg_times (final (moderate_all e m st))
           = (msg_times st)((c, u) := fst (rate_hit (fsub e) (time e) (VInt W) (VInt L)
                                              (msg_times st (c, u))))"
    and "left_at (moderate_all e m st) = R_flood
           \<longleftrightarrow> snd (rate_hit (fsub e) (time e) (VInt W) (VInt L) (msg_times st (c, u)))
                 = Returned True"
    and "left_at (moderate_all e m st) = R_flood
           \<Longrightarrow> effects (moderate_all e m st)
               = snd (apply_action e m u (get_settings_local (DATA st) c) ''flood'')"
proof -
  from moderate_all_text [OF assms(1-3)] obtain st1
    where r: "moderate_all e m st = moderate_text e m (get_settings_local (DATA st) c) c u st1"
      and f: "msg_times st1 = msg_times st"
    by blast
  show "msg_times (final (moderate_all e m st))
           = (msg_times st)((c, u) := fst (rate_hit (fsub e) (time e) (VInt W) (VInt L)
                                              (msg_times st (c, u))))"
    unfolding r using moderate_text_flood(1) [OF assms(4,5), of e m c u st1] by (simp add: f)
  show "left_at (moderate_all e m st) = R_flood
           \<longleftrightarrow> snd (rate_hit (fsub e) (time e) (VInt W) (VInt L) (msg_times st (c, u)))
                 = Returned True"
    unfolding r using moderate_text_flood(2) [OF assms(4,5), of e m c u st1] by (simp add: f)
  show "left_at (moderate_all e m st) = R_flood
           \<Longrightarrow> effects (moderate_all e m st)
               = snd (apply_action e m u (get_settings_local (DATA st) c) ''flood'')"
    unfolding r by (rule moderate_text_flood(3) [OF assms(4,5)])
qed

lemma moderate_all_sticker:
  assumes "from_member m c u" "unexempt e (DATA st) c u"
    and "\<not> truthy (media_group_id m)" "sticker m"
    and "sticker_mode (get_settings_local (DATA st) c) = VStr ''limit''"
    and "media_window_sec (get_settings_local (DATA st) c) = VInt W"
    and "sticker_limit (get_settings_local (DATA st) c) = VInt L"
  shows "sticker_times (final (moderate_all e m st))
           = (sticker_times st)((c, u) := fst (rate_hit (fsub e) (time e) (VInt W) (VInt L)
                                                  (sticker_times st (c, u))))"
    and "left_at (moderate_all e m st) = R_sticker_limit
           \<longleftrightarrow> snd (rate_hit (fsub e) (time e) (VInt W) (VInt L) (sticker_times st (c, u)))
                 = Returned True"
    and "left_at (moderate_all e m st) = R_sticker_limit
           \<Longrightarrow> effects (moderate_all e m st)
               = snd (apply_action e m u (get_settings_local (DATA st) c) ''sticker_limit'')"
proof -
  from assms(1) obtain usr where usr: "from_user m = Some usr"
    by (auto simp: from_member_def split: option.splits)
  let ?st1 = "upsert_activity_local (str_lower e) c u (py_trunc (time e)) (tg_username usr) st"
  have r: "moderate_all e m st = moderate_sticker e m (get_settings_local (DATA st) c) c u ?st1"
    using assms(3,4) by (simp add: moderate_all_checked [OF assms(1,2) usr] Let_def)
  show "sticker_times (final (moderate_all e m st))
           = (sticker_times st)((c, u) := fst (rate_hit (fsub e) (time e) (VInt W) (VInt L)
                                                  (sticker_times st (c, u))))"
    unfolding r using moderate_sticker_limit(1) [OF assms(5-7), of e m c u ?st1] by simp
  show "left_at (moderate_all e m st) = R_sticker_limit
           \<longleftrightarrow> snd (rate_hit (fsub e) (time e) (VInt W) (VInt L) (sticker_times st (c, u)))
                 = Returned True"
    unfolding r using moderate_sticker_limit(2) [OF assms(5-7), of e m c u ?st1] by simp
  show "left_at (moderate_all e m st) = R_sticker_limit
           \<Longrightarrow> effects (moderate_all e m st)
               = snd (apply_action e m u (get_settings_local (DATA st) c) ''sticker_limit'')"
    unfolding r by (rule moderate_sticker_limit(3) [OF assms(5-7)])
qed

lemma moderate_all_gif:
  assumes "from_member m c u" "unexempt e (DATA st) c u"
    and "\<not> truthy (media_group_id m)" "\<not> sticker m" "animation m"
    and "gif_mode (get_settings_local (DATA st) c) = VStr ''limit''"
    and "media_window_sec (get_settings_local (DATA st) c) = VInt W"
    and "gif_limit (get_settings_local (DATA st) c) = VInt L"
  shows "gif_times (final (moderate_all e m st))
           = (gif_times st)((c, u) := fst (rate_hit (fsub e) (time e) (VInt W) (VInt L)
                                              (gif_times st (c, u))))"
    and "left_at (moderate_all e m st) = R_gif_limit
           \<longleftrightarrow> snd (rate_hit (fsub e) (time e) (VInt W) (VInt L) (gif_times st (c, u)))
                 = Returned True"
    and "left_at (moderate_all e m st) = R_gif_limit
           \<Longrightarrow> effects (moderate_all e m st)
               = snd (apply_action e m u (get_settings_local (DATA st) c) ''gif_limit'')"
proof -
  from assms(1) obtain usr where usr: "from_user m = Some usr"
    by (auto simp: from_member_def split: option.splits)
  let ?st1 = "upsert_activity_local (str_lower e) c u (py_trunc (time e)) (tg_username usr) st"
  have r: "moderate_all e m st = moderate_gif e m (get_settings_local (DATA st) c) c u ?st1"
    using assms(3-5) by (simp add: moderate_all_checked [OF assms(1,2) usr] Let_def)
  show "gif_times (final (moderate_all e m st))
           = (gif_times st)((c, u) := fst (rate_hit (fsub e) (time e) (VInt W) (VInt L)
                                              (gif_times st (c, u))))"
    unfolding r using moderate_gif_limit(1) [OF assms(6-8), of e m c u ?st1] by simp
  show "left_at (moderate_all e m st) = R_gif_limit
           \<longleftrightarrow> snd (rate_hit (fsub e) (time e) (VInt W) (VInt L) (gif_times st (c, u)))
                 = Returned True"
    unfolding r using moderate_gif_limit(2) [OF assms(6-8), of e m c u ?st1] by simp
  show "left_at (moderate_all e m st) = R_gif_limit
           \<Longrightarrow> effects (moderate_all e m st)
               = snd (apply_action e m u (get_settings_local (DATA st) c) ''gif_limit'')"
    unfolding r by (rule moderate_gif_limit(3) [OF assms(6-8)])
qed

text \<open>
  A sequence of text messages of one sender, none of which finds an entry of the window
  stale: the window grows by one entry per message, and the message is a flood violation
  exactly when it is entry number \<open>L + 1\<close> or later.
\<close>

lemma flood_run:
  assumes "\<forall>em \<in> set ems. from_member (snd em) c u \<and> plain_text (snd em)
              \<and> unexempt (fst em) (DATA st) c u"
    and "flood_window_sec (get_settings_local (DATA st) c) = VInt W"
    and "flood_limit (get_settings_local (DATA st) c) = VInt L"
    and "\<forall>t \<in> set (msg_times st (c, u)) \<union> (time \<circ> fst) ` set ems.
           \<forall>b \<in> set ems. \<not> fsub (fst b) (time (fst b)) t > of_int W"
  shows "map (\<lambda>r. left_at r = R_flood) (moderate_run ems st)
           = map (\<lambda>k. int k > L)
               [Suc (length (msg_times st (c, u))) ..< Suc (length (msg_times st (c, u)) + length ems)]"
  using assms
proof (induction ems arbitrary: st)
  case Nil
  then show ?case by simp
next
  case (Cons em ems)
  let ?e = "fst em" and ?m = "snd em"
  let ?dq = "msg_times st (c, u)"
  let ?st' = "final (moderate_all ?e ?m st)"
  from Cons.prems(1) have em: "from_member ?m c u" "plain_text ?m" "unexempt ?e (DATA st) c u"
    by simp_all
  note step = moderate_all_flood [OF em(1,3,2) Cons.prems(2,3)]
  have fresh: "\<not> fsub ?e (time ?e) t > of_int W" if "t \<in> set (?dq @ [time ?e])" for t
    using Cons.prems(4) that by auto
  have keep: "dropWhile (\<lambda>t. fsub ?e (time ?e) t > of_int W) (?dq @ [time ?e]) = ?dq @ [time ?e]"
    using fresh by (cases "?dq @ [time ?e]") auto
  have dq': "msg_times ?st' (c, u) = ?dq @ [time ?e]"
    by (simp add: step(1) rate_hit_int keep)
  have hit: "left_at (moderate_all ?e ?m st) = R_flood \<longleftrightarrow> int (Suc (length ?dq)) > L"
    by (simp add: step(2) rate_hit_int keep)
  have "map (\<lambda>r. left_at r = R_flood) (moderate_run ems ?st')
      = map (\<lambda>k. int k > L)
          [Suc (length (msg_times ?st' (c, u))) ..< Suc (length (msg_times ?st' (c, u)) + length ems)]"
  proof (rule Cons.IH)
    show "\<forall>em \<in> set ems. from_member (snd em) c u \<and> plain_text (snd em)
              \<and> unexempt (fst em) (DATA ?st') c u"
      using Cons.prems(1) by (simp add: moderate_all_reads)
    show "flood_window_sec (get_settings_local (DATA ?st') c) = VInt W"
      "flood_limit (get_settings_local (DATA ?st') c) = VInt L"
      using Cons.prems(2,3) by (simp_all add: moderate_all_reads)
    show "\<forall>t \<in> set (msg_times ?st' (c, u)) \<union> (time \<circ> fst) ` set ems.
           \<forall>b \<in> set ems. \<not> fsub (fst b) (time (fst b)) t > of_int W"
      using Cons.prems(4) by (auto simp: dq')
  qed
  then have rest: "map (\<lambda>r. left_at r = R_flood) (moderate_run ems ?st')
      = map (\<lambda>k. int k > L) [Suc (Suc (length ?dq)) ..< Suc (Suc (length ?dq) + length ems)]"
    by (simp add: dq')
  have "[Suc (length ?dq) ..< Suc (length ?dq + length (em # ems))]
      = Suc (length ?dq) # [Suc (Suc (length ?dq)) ..< Suc (Suc (length ?dq) + length ems)]"
    by (subst upt_conv_Cons) simp_all
  then show ?case
    using hit rest by simp
qed

text \<open>
  C1, as amended. With window \<open>W\<close> and limit \<open>L\<close> (integers), a rate check appends \<open>now\<close>
  to the window, then removes entries from its front as long as the front entry is older
  than \<open>now - W\<close> (the float difference \<open>now - t\<close> exceeds \<open>W\<close>), stopping at the first
  entry that is not, and is a violation exactly when the number of entries left is
  strictly greater than \<open>L\<close>. When the window is in chronological order and ends at \<open>now\<close>,
  what is left is all the entries not older than \<open>now - W\<close>. In \<open>moderate_all\<close>, for a
  message of a sender who is let through, that is what happens to the sender's message
  window with the chat's \<open>flood_window_sec\<close> and \<open>flood_limit\<close> for a message that is
  neither part of an album nor a sticker nor an animation, to the sticker window with
  \<open>media_window_sec\<close> and \<open>sticker_limit\<close> for a sticker and to the animation window with
  \<open>media_window_sec\<close> and \<open>gif_limit\<close> for an animation (each when its mode is
  \<open>limit\<close>); the violation is punished by \<open>apply_action\<close>. For successive text messages
  none of which finds an entry of the window stale (all within one window), starting from
  an empty window, messages 1 to \<open>L\<close> are no flood violation and every later one is.
\<close>

theorem rate_limit_boundary:
  "rate_hit sub now (VInt W) (VInt L) dq
     = (dropWhile (\<lambda>t. sub now t > of_int W) (dq @ [now]),
        Returned (int (length (dropWhile (\<lambda>t. sub now t > of_int W) (dq @ [now]))) > L))
   \<and> (sorted (dq @ [now]) \<and> (\<forall>a b. a \<le> b \<longrightarrow> sub now b \<le> sub now a) \<longrightarrow>
        fst (rate_hit sub now (VInt W) (VInt L) dq)
          = filter (\<lambda>t. \<not> sub now t > of_int W) (dq @ [now]))
   \<and> (from_member m c u \<and> unexempt e (DATA st) c u \<and> plain_text m
       \<and> flood_window_sec (get_settings_local (DATA st) c) = VInt W1
       \<and> flood_limit (get_settings_local (DATA st) c) = VInt L1 \<longrightarrow>
        msg_times (final (moderate_all e m st)) (c, u)
          = fst (rate_hit (fsub e) (time e) (VInt W1) (VInt L1) (msg_times st (c, u)))
        \<and> (left_at (moderate_all e m st) = R_flood
             \<longleftrightarrow> int (length (msg_times (final (moderate_all e m st)) (c, u))) > L1)
        \<and> (left_at (moderate_all e m st) = R_flood \<longrightarrow>
             effects (moderate_all e m st)
               = snd (apply_action e m u (get_settings_local (DATA st) c) ''flood'')))
   \<and> (from_member m c u \<and> unexempt e (DATA st) c u
       \<and> \<not> truthy (media_group_id m) \<and> sticker m
       \<and> sticker_mode (get_settings_local (DATA st) c) = VStr ''limit''
       \<and> media_window_sec (get_settings_local (DATA st) c) = VInt W2
       \<and> sticker_limit (get_settings_local (DATA st) c) = VInt L2 \<longrightarrow>
        sticker_times (final (moderate_all e m st)) (c, u)
          = fst (rate_hit (fsub e) (time e) (VInt W2) (VInt L2) (sticker_times st (c, u)))
        \<and> (left_at (moderate_all e m st) = R_sticker_limit
             \<longleftrightarrow> int (length (sticker_times (final (moderate_all e m st)) (c, u))) > L2)
        \<and> (left_at (moderate_all e m st) = R_sticker_limit \<longrightarrow>
             effects (moderate_all e m st)
               = snd (apply_action e m u (get_settings_local (DATA st) c) ''sticker_limit'')))
   \<and> (from_member m c u \<and> unexempt e (DATA st) c u
       \<and> \<not> truthy (media_group_id m) \<and> \<not> sticker m \<and> animation m
       \<and> gif_mode (get_settings_local (DATA st) c) = VStr ''limit''
       \<and> media_window_sec (get_settings_local (DATA st) c) = VInt W3
       \<and> gif_limit (get_settings_local (DATA st) c) = VInt L3 \<longrightarrow>
        gif_times (final (moderate_all e m st)) (c, u)
          = fst (rate_hit (fsub e) (time e) (VInt W3) (VInt L3) (gif_times st (c, u)))
        \<and> (left_at (moderate_all e m st) = R_gif_limit
             \<longleftrightarrow> int (length (gif_times (final (moderate_all e m st)) (c, u))) > L3)
        \<and> (left_at (moderate_all e m st) = R_gif_limit \<longrightarrow>
             effects (moderate_all e m st)
               = snd (apply_action e m u (get_settings_local (DATA st) c) ''gif_limit'')))
   \<and> ((\<forall>em \<in> set ems. from_member (snd em) c u \<and> plain_text (snd em)
                         \<and> unexempt (fst em) (DATA st) c u)
       \<and> flood_window_sec (get_settings_local (DATA st) c) = VInt W4
       \<and> flood_limit (get_settings_local (DATA st) c) = VInt L4
       \<and> msg_times st (c, u) = []
       \<and> (\<forall>a \<in> set ems. \<forall>b \<in> set ems.
             \<not> fsub (fst b) (time (fst b)) (time (fst a)) > of_int W4) \<longrightarrow>
        map (\<lambda>r. left_at r = R_flood) (moderate_run ems st)
          = map (\<lambda>k. int k > L4) [1 ..< Suc (length ems)])"
proof (intro conjI impI)
  show "rate_hit sub now (VInt W) (VInt L) dq
     = (dropWhile (\<lambda>t. sub now t > of_int W) (dq @ [now]),
        Returned (int (length (dropWhile (\<lambda>t. sub now t > of_int W) (dq @ [now]))) > L))"
    by (rule rate_hit_int)
next
  assume "sorted (dq @ [now]) \<and> (\<forall>a b. a \<le> b \<longrightarrow> sub now b \<le> sub now a)"
  then show "fst (rate_hit sub now (VInt W) (VInt L) dq)
          = filter (\<lambda>t. \<not> sub now t > of_int W) (dq @ [now])"
    using rate_hit_chronological [of dq now sub W L] by blast
next
  assume h: "from_member m c u \<and> unexempt e (DATA st) c u \<and> plain_text m
       \<and> flood_window_sec (get_settings_local (DATA st) c) = VInt W1
       \<and> flood_limit (get_settings_local (DATA st) c) = VInt L1"
  then have s: "msg_times (final (moderate_all e m st))
           = (msg_times st)((c, u) := fst (rate_hit (fsub e) (time e) (VInt W1) (VInt L1)
                                              (msg_times st (c, u))))"
    "left_at (moderate_all e m st) = R_flood
           \<longleftrightarrow> snd (rate_hit (fsub e) (time e) (VInt W1) (VInt L1) (msg_times st (c, u)))
                 = Returned True"
    "left_at (moderate_all e m st) = R_flood
           \<Longrightarrow> effects (moderate_all e m st)
               = snd (apply_action e m u (get_settings_local (DATA st) c) ''flood'')"
    using moderate_all_flood [of m c u e st W1 L1] by blast+
  show "msg_times (final (moderate_all e m st)) (c, u)
          = fst (rate_hit (fsub e) (time e) (VInt W1) (VInt L1) (msg_times st (c, u)))"
    by (simp add: s(1))
  show "left_at (moderate_all e m st) = R_flood
             \<longleftrightarrow> int (length (msg_times (final (moderate_all e m st)) (c, u))) > L1"
    by (simp add: s(1,2) rate_hit_int)
  show "effects (moderate_all e m st)
               = snd (apply_action e m u (get_settings_local (DATA st) c) ''flood'')"
    if "left_at (moderate_all e m st) = R_flood"
    using that by (rule s(3))
next
  assume h: "from_member m c u \<and> unexempt e (DATA st) c u
       \<and> \<not> truthy (media_group_id m) \<and> sticker m
       \<and> sticker_mode (get_settings_local (DATA st) c) = VStr ''limit''
       \<and> media_window_sec (get_settings_local (DATA st) c) = VInt W2
       \<and> sticker_limit (get_settings_local (DATA st) c) = VInt L2"
  then have s: "sticker_times (final (moderate_all e m st))
           = (sticker_times st)((c, u) := fst (rate_hit (fsub e) (time e) (VInt W2) (VInt L2)
                                                  (sticker_times st (c, u))))"
    "left_at (moderate_all e m st) = R_sticker_limit
           \<longleftrightarrow> snd (rate_hit (fsub e) (time e) (VInt W2) (VInt L2) (sticker_times st (c, u)))
                 = Returned True"
    "left_at (moderate_all e m st) = R_sticker_limit
           \<Longrightarrow> effects (moderate_all e m st)
               = snd (apply_action e m u (get_settings_local (DATA st) c) ''sticker_limit'')"
    using moderate_all_sticker [of m c u e st W2 L2] by blast+
  show "sticker_times (final (moderate_all e m st)) (c, u)
          = fst (rate_hit (fsub e) (time e) (VInt W2) (VInt L2) (sticker_times st (c, u)))"
    by (simp add: s(1))
  show "left_at (moderate_all e m st) = R_sticker_limit
             \<longleftrightarrow> int (length (sticker_times (final (moderate_all e m st)) (c, u))) > L2"
    by (simp add: s(1,2) rate_hit_int)
  show "effects (moderate_all e m st)
               = snd (apply_action e m u (get_settings_local (DATA st) c) ''sticker_limit'')"
    if "left_at (moderate_all e m st) = R_sticker_limit"
    using that by (rule s(3))
next
  assume h: "from_member m c u \<and> unexempt e (DATA st) c u
       \<and> \<not> truthy (media_group_id m) \<and> \<not> sticker m \<and> animation m
       \<and> gif_mode (get_settings_local (DATA st) c) = VStr ''limit''
       \<and> media_window_sec (get_settings_local (DATA st) c) = VInt W3
       \<and> gif_limit (get_settings_local (DATA st) c) = VInt L3"
  then have s: "gif_times (final (moderate_all e m st))
           = (gif_times st)((c, u) := fst (rate_hit (fsub e) (time e) (VInt W3) (VInt L3)
                                              (gif_times st (c, u))))"
    "left_at (moderate_all e m st) = R_gif_limit
           \<longleftrightarrow> snd (rate_hit (fsub e) (time e) (VInt W3) (VInt L3) (gif_times st (c, u)))
                 = Returned True"
    "left_at (moderate_all e m st) = R_gif_limit
           \<Longrightarrow> effects (moderate_all e m st)
               = snd (apply_action e m u (get_settings_local (DATA st) c) ''gif_limit'')"
    using moderate_all_gif [of m c u e st W3 L3] by blast+
  show "gif_times (final (moderate_all e m st)) (c, u)
          = fst (rate_hit (fsub e) (time e) (VInt W3) (VInt L3) (gif_times st (c, u)))"
    by (simp add: s(1))
  show "left_at (moderate_all e m st) = R_gif_limit
             \<longleftrightarrow> int (length (gif_times (final (moderate_all e m st)) (c, u))) > L3"
    by (simp add: s(1,2) rate_hit_int)
  show "effects (moderate_all e m st)
               = snd (apply_action e m u (get_settings_local (DATA st) c) ''gif_limit'')"
    if "left_at (moderate_all e m st) = R_gif_limit"
    using that by (rule s(3))
next
  assume h: "(\<forall>em \<in> set ems. from_member (snd em) c u \<and> plain_text (snd em)
                         \<and> unexempt (fst em) (DATA st) c u)
       \<and> flood_window_sec (get_settings_local (DATA st) c) = VInt W4
       \<and> flood_limit (get_settings_local (DATA st) c) = VInt L4
       \<and> msg_times st (c, u) = []
       \<and> (\<forall>a \<in> set ems. \<forall>b \<in> set ems.
             \<not> fsub (fst b) (time (fst b)) (time (fst a)) > of_int W4)"
  then have e: "msg_times st (c, u) = []" by simp
  have "map (\<lambda>r. left_at r = R_flood) (moderate_run ems st)
           = map (\<lambda>k. int k > L4)
               [Suc (length (msg_times st (c, u))) ..< Suc (length (msg_times st (c, u)) + length ems)]"
  proof (rule flood_run)
    show "\<forall>em \<in> set ems. from_member (snd em) c u \<and> plain_text (snd em)
              \<and> unexempt (fst em) (DATA st) c u"
      using h by blast
    show "flood_window_sec (get_settings_local (DATA st) c) = VInt W4"
      "flood_limit (get_settings_local (DATA st) c) = VInt L4"
      using h by blast+
    show "\<forall>t \<in> set (msg_times st (c, u)) \<union> (time \<circ> fst) ` set ems.
           \<forall>b \<in> set ems. \<not> fsub (fst b) (time (fst b)) t > of_int W4"
      using h by (auto simp: e)
  qed
  then show "map (\<lambda>r. left_at r = R_flood) (moderate_run ems st)
          = map (\<lambda>k. int k > L4) [1 ..< Suc (length ems)]"
    by (simp add: e)
qed

lemma ex_settings:
  "get_settings_local (DATA ex_state) 1 = DEFAULT"
  "get_settings_local (DATA ex_strict) 1 = DEFAULT\<lparr>flood_limit := VInt 2\<rparr>"
  by (simp_all add: get_settings_local_def ex_state_def ex_strict_def ex_data_def key_examples
      asdict_def DEFAULT_def from_dict_def field_of_def py_has_key_def)

lemma ex_gates:
  "from_member (ex_text_msg x) 1 10" "plain_text (ex_text_msg x)"
  "from_member ((ex_text_msg x)\<lparr>sticker := True\<rparr>) 1 10"
  "from_member ((ex_text_msg x)\<lparr>animation := True\<rparr>) 1 10"
  "unexempt (ex_at t) (DATA ex_state) 1 10" "unexempt (ex_at t) (DATA ex_strict) 1 10"
  "time (ex_at t) = t" "fsub (ex_at t) = (\<lambda>a b. a - b)"
  by (simp_all add: from_member_def plain_text_def ex_text_msg_def truthy_def unexempt_def
      ex_settings ex_at_def ex_env_def DEFAULT_def is_whitelisted_def get_effective_role_def
      get_role_local_def key_examples)
    (simp_all add: ex_state_def ex_strict_def ex_data_def key_examples)

lemma ex_flood_step:
  assumes "settings (DATA st) = settings (DATA ex_strict)" "roles (DATA st) = roles (DATA ex_strict)"
    "whitelist (DATA st) = whitelist (DATA ex_strict)"
  shows "msg_times (final (moderate_all (ex_at t) (ex_text_msg x) st)) (1, 10)
           = dropWhile (\<lambda>t'. 10 < t - t') (msg_times st (1, 10) @ [t])"
    and "left_at (moderate_all (ex_at t) (ex_text_msg x) st) = R_flood
           \<longleftrightarrow> 2 < int (length (dropWhile (\<lambda>t'. 10 < t - t') (msg_times st (1, 10) @ [t])))"
proof -
  note g = gates_cong [OF assms]
  have s: "flood_window_sec (get_settings_local (DATA st) 1) = VInt 10"
    "flood_limit (get_settings_local (DATA st) 1) = VInt 2"
    by (simp_all add: g ex_settings DEFAULT_def)
  have u: "unexempt (ex_at t) (DATA st) 1 10"
    by (simp add: g ex_gates)
  note step = moderate_all_flood [OF ex_gates(1) u ex_gates(2) s, of x]
  show "msg_times (final (moderate_all (ex_at t) (ex_text_msg x) st)) (1, 10)
           = dropWhile (\<lambda>t'. 10 < t - t') (msg_times st (1, 10) @ [t])"
    by (simp add: step(1) rate_hit_int ex_gates)
  show "left_at (moderate_all (ex_at t) (ex_text_msg x) st) = R_flood
           \<longleftrightarrow> 2 < int (length (dropWhile (\<lambda>t'. 10 < t - t') (msg_times st (1, 10) @ [t])))"
    by (simp add: step(2) rate_hit_int ex_gates)
qed

theorem rate_limit_boundary_witness:
  "rate_hit (\<lambda>a b. a - b) 111 (VInt 10) (VInt 2) [100, 105] = ([105, 111], Returned False)
   \<and> filter (\<lambda>t. \<not> 111 - t > (10 :: real)) [100, 105, 111] = [105, 111]
   \<and> msg_times (final (moderate_all (ex_at 100) (ex_text_msg (lit ''a'')) ex_strict)) (1, 10) = [100]
   \<and> left_at (moderate_all (ex_at 100) (ex_text_msg (lit ''a'')) ex_strict) \<noteq> R_flood
   \<and> sticker_times (final (moderate_all (ex_at 100) ((ex_text_msg [])\<lparr>sticker := True\<rparr>) ex_strict))
        (1, 10) = [100]
   \<and> left_at (moderate_all (ex_at 100) ((ex_text_msg [])\<lparr>sticker := True\<rparr>) ex_strict)
        \<noteq> R_sticker_limit
   \<and> gif_times (final (moderate_all (ex_at 100) ((ex_text_msg [])\<lparr>animation := True\<rparr>) ex_strict))
        (1, 10) = [100]
   \<and> left_at (moderate_all (ex_at 100) ((ex_text_msg [])\<lparr>animation := True\<rparr>) ex_strict)
        \<noteq> R_gif_limit
   \<and> map (\<lambda>r. left_at r = R_flood)
        (moderate_run [(ex_at 100, ex_text_msg (lit ''a'')), (ex_at 101, ex_text_msg (lit ''bb'')),
                       (ex_at 102, ex_text_msg (lit ''ccc''))] ex_strict)
       = [False, False, True]"
proof -
  let ?ems = "[(ex_at 100, ex_text_msg (lit ''a'')), (ex_at 101, ex_text_msg (lit ''bb'')),
               (ex_at 102, ex_text_msg (lit ''ccc''))]"
  note T = rate_limit_boundary [where sub = "\<lambda>a b. a - b" and now = 111 and W = 10 and L = 2
      and dq = "[100, 105]" and c = 1 and u = 10 and e = "ex_at 100" and st = ex_strict
      and ?W1.0 = 10 and ?L1.0 = 2 and ?W2.0 = 12 and ?L2.0 = 4 and ?W3.0 = 12 and ?L3.0 = 3
      and ?W4.0 = 10 and ?L4.0 = 2 and ems = ?ems]
  note s = ex_settings DEFAULT_def ex_gates
  have e: "msg_times ex_strict (1, 10) = []" "sticker_times ex_strict (1, 10) = []"
    "gif_times ex_strict (1, 10) = []"
    by (simp_all add: ex_strict_def ex_state_def)
  have A: "rate_hit (\<lambda>a b. a - b) 111 (VInt 10) (VInt 2) [100, 105] = ([105, 111], Returned False)"
    using T [where m = "ex_text_msg (lit ''a'')", THEN conjunct1] by simp
  have B: "filter (\<lambda>t. \<not> 111 - t > (10 :: real)) [100, 105, 111] = [105, 111]"
    using T [where m = "ex_text_msg (lit ''a'')", THEN conjunct2, THEN conjunct1] A by simp
  have C: "msg_times (final (moderate_all (ex_at 100) (ex_text_msg (lit ''a'')) ex_strict)) (1, 10) = [100]
    \<and> left_at (moderate_all (ex_at 100) (ex_text_msg (lit ''a'')) ex_strict) \<noteq> R_flood"
    using T [where m = "ex_text_msg (lit ''a'')", THEN conjunct2, THEN conjunct2, THEN conjunct1]
    by (simp add: s e rate_hit_int)
  have D: "sticker_times (final (moderate_all (ex_at 100) ((ex_text_msg [])\<lparr>sticker := True\<rparr>) ex_strict))
        (1, 10) = [100]
    \<and> left_at (moderate_all (ex_at 100) ((ex_text_msg [])\<lparr>sticker := True\<rparr>) ex_strict)
        \<noteq> R_sticker_limit"
    using T [where m = "(ex_text_msg [])\<lparr>sticker := True\<rparr>", THEN conjunct2, THEN conjunct2,
        THEN conjunct2, THEN conjunct1]
    by (simp add: s e rate_hit_int) (simp add: ex_text_msg_def truthy_def)
  have E: "gif_times (final (moderate_all (ex_at 100) ((ex_text_msg [])\<lparr>animation := True\<rparr>) ex_strict))
        (1, 10) = [100]
    \<and> left_at (moderate_all (ex_at 100) ((ex_text_msg [])\<lparr>animation := True\<rparr>) ex_strict)
        \<noteq> R_gif_limit"
    using T [where m = "(ex_text_msg [])\<lparr>animation := True\<rparr>", THEN conjunct2, THEN conjunct2,
        THEN conjunct2, THEN conjunct2, THEN conjunct1]
    by (simp add: s e rate_hit_int) (simp add: ex_text_msg_def truthy_def)
  have F: "map (\<lambda>r. left_at r = R_flood) (moderate_run ?ems ex_strict) = [False, False, True]"
    using T [where m = "ex_text_msg (lit ''a'')", THEN conjunct2, THEN conjunct2, THEN conjunct2,
        THEN conjunct2, THEN conjunct2]
    by (simp add: s e upt_rec)
  from A B C D E F show ?thesis by (intro conjI) simp_all
qed

text \<open>
  C1 as stated fails for a window that is not in chronological order: the trim stops at
  the first entry that is not stale and never sees a stale entry behind it. In chat 1
  (flood limit 2, window 10 seconds) user 10 sends three messages whose runs read the
  clock as 105, 90 and 111. At the third, only the entries 105 and 111 are not older
  than \<open>111 - 10\<close>, two entries, which is not more than the limit; but the entry 90 is
  still in the window, the count is 3, and the message is punished as a flood.
\<close>

theorem rate_limit_counterexample:
  "flood_limit (get_settings_local (DATA ex_strict) 1) = VInt 2
   \<and> flood_window_sec (get_settings_local (DATA ex_strict) 1) = VInt 10
   \<and> map (\<lambda>r. left_at r = R_flood)
        (moderate_run [(ex_at 105, ex_text_msg (lit ''a'')), (ex_at 90, ex_text_msg (lit ''bb'')),
                       (ex_at 111, ex_text_msg (lit ''ccc''))] ex_strict)
       = [False, False, True]
   \<and> msg_times (after_run [(ex_at 105, ex_text_msg (lit ''a'')), (ex_at 90, ex_text_msg (lit ''bb'')),
                            (ex_at 111, ex_text_msg (lit ''ccc''))] ex_strict) (1, 10)
       = [105, 90, 111]
   \<and> filter (\<lambda>t. \<not> 111 - t > (10 :: real)) [105, 90, 111] = [105, 111]
   \<and> rate_hit (\<lambda>a b. a - b) 111 (VInt 10) (VInt 2) [105, 90] = ([105, 90, 111], Returned True)"
proof -
  define s1 where "s1 = final (moderate_all (ex_at 105) (ex_text_msg (lit ''a'')) ex_strict)"
  define s2 where "s2 = final (moderate_all (ex_at 90) (ex_text_msg (lit ''bb'')) s1)"
  define s3 where "s3 = final (moderate_all (ex_at 111) (ex_text_msg (lit ''ccc'')) s2)"
  have d1: "settings (DATA s1) = settings (DATA ex_strict)" "roles (DATA s1) = roles (DATA ex_strict)"
    "whitelist (DATA s1) = whitelist (DATA ex_strict)"
    by (simp_all add: s1_def)
  have d2: "settings (DATA s2) = settings (DATA ex_strict)" "roles (DATA s2) = roles (DATA ex_strict)"
    "whitelist (DATA s2) = whitelist (DATA ex_strict)"
    by (simp_all add: s2_def d1)
  have e: "msg_times ex_strict (1, 10) = []"
    by (simp add: ex_strict_def ex_state_def)
  have w1: "msg_times s1 (1, 10) = [105]"
    unfolding s1_def by (simp add: ex_flood_step(1) e)
  have w2: "msg_times s2 (1, 10) = [105, 90]"
    unfolding s2_def by (simp add: ex_flood_step(1) [OF d1] w1)
  have w3: "msg_times s3 (1, 10) = [105, 90, 111]"
    unfolding s3_def by (simp add: ex_flood_step(1) [OF d2] w2)
  have f1: "left_at (moderate_all (ex_at 105) (ex_text_msg (lit ''a'')) ex_strict) \<noteq> R_flood"
    by (simp add: ex_flood_step(2) e)
  have f2: "left_at (moderate_all (ex_at 90) (ex_text_msg (lit ''bb'')) s1) \<noteq> R_flood"
    by (simp add: ex_flood_step(2) [OF d1] w1)
  have f3: "left_at (moderate_all (ex_at 111) (ex_text_msg (lit ''ccc'')) s2) = R_flood"
    by (simp add: ex_flood_step(2) [OF d2] w2)
  have run: "map (\<lambda>r. left_at r = R_flood)
        (moderate_run [(ex_at 105, ex_text_msg (lit ''a'')), (ex_at 90, ex_text_msg (lit ''bb'')),
                       (ex_at 111, ex_text_msg (lit ''ccc''))] ex_strict)
       = [False, False, True]"
    using f1 f2 f3 by (simp add: s1_def [symmetric] s2_def [symmetric])
  have after: "after_run [(ex_at 105, ex_text_msg (lit ''a'')), (ex_at 90, ex_text_msg (lit ''bb'')),
                            (ex_at 111, ex_text_msg (lit ''ccc''))] ex_strict = s3"
    by (simp add: s1_def s2_def s3_def)
  show ?thesis
    unfolding run after by (simp add: w3 ex_settings DEFAULT_def rate_hit_int)
qed

end
